theory Spec2Isabelle
  imports Complex_Main "HOL-Library.Word"
begin

unbundle bit_operations_syntax

section \<open>FreshRoles: the matching and deduplication engine\<close>

text \<open>
  A shallow embedding of \<^verbatim>\<open>freshroles/matching/dedup.py\<close>,
  \<^verbatim>\<open>freshroles/matching/keyword.py\<close>, \<^verbatim>\<open>freshroles/matching/scorer.py\<close>, the provider
  interface of \<^verbatim>\<open>freshroles/matching/embeddings\<close> and the parts of
  \<^verbatim>\<open>freshroles/models\<close> they read.

  Conventions of the embedding.
  \<^item> Python \<^verbatim>\<open>str\<close> is \<^typ>\<open>string\<close>, read as ASCII text: the character classes of
    \<^verbatim>\<open>re\<close> and \<^verbatim>\<open>str.lower\<close> are modelled on the ASCII range, where Python's
    Unicode rules and the ASCII rules agree.
  \<^item> Python \<^verbatim>\<open>int\<close> is \<^typ>\<open>int\<close>; \<^verbatim>\<open>float\<close> is idealised as \<^typ>\<open>real\<close>
    (no rounding, no NaN).
  \<^item> An exception is a value of type \<open>py_error\<close>, on the left of a sum.
    \<open>ProviderError\<close> stands for any exception of an embedding backend that derives from
    \<^verbatim>\<open>Exception\<close>, which is what \<^verbatim>\<open>except Exception\<close> catches.
  \<^item> An optional string is true when it is present and not empty; an optional enumeration
    member or timestamp is true when it is present.
  \<^item> Digest functions of the standard library (\<^verbatim>\<open>hashlib.md5\<close>, \<^verbatim>\<open>hashlib.sha256\<close>)
    are parameters of the functions that call them.
\<close>

datatype py_error = ZeroDivisionError | ProviderError

subsection \<open>Characters and strings\<close>

text \<open>The class \<^verbatim>\<open>\s\<close> of \<^verbatim>\<open>re\<close>, which is also what \<^verbatim>\<open>str.split()\<close> and
  \<^verbatim>\<open>str.strip()\<close> take as whitespace: tab to carriage return, the four separators
  \<^verbatim>\<open>\x1c\<close> to \<^verbatim>\<open>\x1f\<close>, and the space.\<close>

definition is_space_char :: "char \<Rightarrow> bool" where
  "is_space_char c =
     (let n = (of_char c :: nat) in (9 \<le> n \<and> n \<le> 13) \<or> (28 \<le> n \<and> n \<le> 32))"

text \<open>The class \<^verbatim>\<open>\w\<close>: digits, letters and the underscore.\<close>

definition is_word_char :: "char \<Rightarrow> bool" where
  "is_word_char c =
     (let n = (of_char c :: nat) in
        (48 \<le> n \<and> n \<le> 57) \<or> (65 \<le> n \<and> n \<le> 90) \<or> (97 \<le> n \<and> n \<le> 122) \<or> n = 95)"

definition lower_char :: "char \<Rightarrow> char" where
  "lower_char c =
     (case map_of (zip ''ABCDEFGHIJKLMNOPQRSTUVWXYZ'' ''abcdefghijklmnopqrstuvwxyz'') c of
        Some d \<Rightarrow> d
      | None \<Rightarrow> c)"

text \<open>\<^verbatim>\<open>str.lower()\<close>\<close>

definition lower :: "string \<Rightarrow> string" where
  "lower s = map lower_char s"

text \<open>\<^verbatim>\<open>str.strip()\<close>\<close>

definition strip :: "string \<Rightarrow> string" where
  "strip s = rev (dropWhile is_space_char (rev (dropWhile is_space_char s)))"

text \<open>\<^verbatim>\<open>sep.join(parts)\<close>\<close>

fun join :: "string \<Rightarrow> string list \<Rightarrow> string" where
  "join sep [] = []"
| "join sep [p] = p"
| "join sep (p # q # ps) = p @ sep @ join sep (q # ps)"

text \<open>\<^verbatim>\<open>re.sub(r"\s+", " ", text)\<close>: every maximal run of whitespace becomes one space.\<close>

function sub_spaces :: "string \<Rightarrow> string" where
  "sub_spaces [] = []"
| "sub_spaces (c # cs) =
     (if is_space_char c then CHR '' '' # sub_spaces (dropWhile is_space_char cs)
      else c # sub_spaces cs)"
  by pat_completeness auto
termination
  by (relation "measure length") (auto simp: length_dropWhile_le less_Suc_eq_le)

lemma dropWhile_not_shorter:
  "xs \<noteq> [] \<Longrightarrow> \<not> P (hd xs) \<Longrightarrow> length (dropWhile (\<lambda>c. \<not> P c) xs) < length xs"
  by (cases xs) (auto simp: less_Suc_eq_le length_dropWhile_le)

text \<open>\<^verbatim>\<open>str.split()\<close> without argument: the maximal runs of non-whitespace.\<close>

function split_ws :: "string \<Rightarrow> string list" where
  "split_ws s =
     (let s' = dropWhile is_space_char s in
      if s' = [] then []
      else takeWhile (\<lambda>c. \<not> is_space_char c) s'
             # split_ws (dropWhile (\<lambda>c. \<not> is_space_char c) s'))"
  by pat_completeness auto
termination
proof (relation "measure length")
  show "wf (measure length)" by simp
next
  fix s s' :: string
  assume a: "s' = dropWhile is_space_char s" "s' \<noteq> []"
  then have "\<not> is_space_char (hd s')"
    using hd_dropWhile by metis
  then have "length (dropWhile (\<lambda>c. \<not> is_space_char c) s') < length s'"
    using a dropWhile_not_shorter by blast
  also have "length s' \<le> length s"
    using a by (simp add: length_dropWhile_le)
  finally show "(dropWhile (\<lambda>c. \<not> is_space_char c) s', s) \<in> measure length"
    by simp
qed

subsection \<open>dedup.py: text normalisation and SimHash\<close>

text \<open>
  \<^verbatim>\<open>
  def normalize_text(text):
      text = text.lower()
      text = re.sub(r"[^\w\s]", "", text)
      text = re.sub(r"\s+", " ", text)
      return text.strip()
  \<close>
\<close>

definition normalize_text :: "string \<Rightarrow> string" where
  "normalize_text text =
     (let text1 = lower text;
          text2 = filter (\<lambda>c. is_word_char c \<or> is_space_char c) text1;
          text3 = sub_spaces text2
      in strip text3)"

text \<open>The inner loop of \<^verbatim>\<open>simhash\<close>: one vote per bit position for one word hash.\<close>

definition simhash_votes :: "int \<Rightarrow> nat \<Rightarrow> int list \<Rightarrow> int list" where
  "simhash_votes word_hash n v =
     fold (\<lambda>i v. if word_hash AND push_bit i 1 \<noteq> 0 then v[i := v ! i + 1] else v[i := v ! i - 1])
       [0..<n] v"

text \<open>
  \<^verbatim>\<open>simhash(text, hash_bits=64)\<close>. The parameter \<open>md5_int\<close> stands for
  \<^verbatim>\<open>int(md5(word.encode()).hexdigest(), 16)\<close>. A negative \<open>hash_bits\<close> gives an empty
  accumulator and an empty range, as \<^verbatim>\<open>[0] * hash_bits\<close> and \<^verbatim>\<open>range(hash_bits)\<close> do.
\<close>

definition simhash :: "(string \<Rightarrow> int) \<Rightarrow> string \<Rightarrow> int \<Rightarrow> int" where
  "simhash md5_int text hash_bits =
     (let words = split_ws (normalize_text text) in
      if words = [] then 0
      else
        let n = nat hash_bits;
            v = fold (\<lambda>word v. simhash_votes (md5_int word) n v) words (replicate n 0)
        in fold (\<lambda>i fingerprint. if v ! i > 0 then fingerprint OR push_bit i 1 else fingerprint)
             [0..<n] 0)"

text \<open>\<^verbatim>\<open>bin(x).count("1")\<close>: the number of ones in the binary numeral of the magnitude
  of \<open>x\<close> (the sign is printed as a minus).\<close>

fun popcount :: "nat \<Rightarrow> nat" where
  "popcount n = (if n = 0 then 0 else n mod 2 + popcount (n div 2))"

definition hamming_distance :: "int \<Rightarrow> int \<Rightarrow> int \<Rightarrow> int" where
  "hamming_distance hash1 hash2 bits = (let xor = hash1 XOR hash2 in int (popcount (nat \<bar>xor\<bar>)))"

text \<open>\<^verbatim>\<open>simhash_similarity\<close>: the true division raises on \<open>bits = 0\<close>.\<close>

definition simhash_similarity :: "int \<Rightarrow> int \<Rightarrow> int \<Rightarrow> py_error + real" where
  "simhash_similarity hash1 hash2 bits =
     (let distance = hamming_distance hash1 hash2 bits in
      if bits = 0 then Inl ZeroDivisionError
      else Inr (1 - real_of_int distance / real_of_int bits))"

subsection \<open>models: enumerations and the job posting\<close>

datatype RemoteType = ONSITE | HYBRID | REMOTE | UNKNOWN_REMOTE

fun RemoteType_value :: "RemoteType \<Rightarrow> string" where
  "RemoteType_value ONSITE = ''onsite''"
| "RemoteType_value HYBRID = ''hybrid''"
| "RemoteType_value REMOTE = ''remote''"
| "RemoteType_value UNKNOWN_REMOTE = ''unknown''"

datatype ATSType =
  GREENHOUSE | LEVER | WORKDAY | ICIMS | SMARTRECRUITERS | SUCCESSFACTORS | TALEO | ASHBY
  | UNKNOWN_ATS

fun ATSType_value :: "ATSType \<Rightarrow> string" where
  "ATSType_value GREENHOUSE = ''greenhouse''"
| "ATSType_value LEVER = ''lever''"
| "ATSType_value WORKDAY = ''workday''"
| "ATSType_value ICIMS = ''icims''"
| "ATSType_value SMARTRECRUITERS = ''smartrecruiters''"
| "ATSType_value SUCCESSFACTORS = ''successfactors''"
| "ATSType_value TALEO = ''taleo''"
| "ATSType_value ASHBY = ''ashby''"
| "ATSType_value UNKNOWN_ATS = ''unknown''"

text \<open>
  \<^verbatim>\<open>JobPosting\<close>, with the fields the matching engine reads. \<open>posted_at\<close> is the
  instant in microseconds since the epoch (a naive \<^verbatim>\<open>datetime\<close> is read as UTC by
  the recency scorer, so every value denotes an instant). The URLs, \<^verbatim>\<open>raw\<close>,
  \<^verbatim>\<open>employment_type\<close>, \<^verbatim>\<open>team\<close>, \<^verbatim>\<open>updated_at\<close>, \<^verbatim>\<open>description_html\<close>,
  \<^verbatim>\<open>seniority\<close> and \<^verbatim>\<open>keywords\<close> are never read by the engine and are left out.
\<close>

record JobPosting =
  company :: string
  title :: string
  source_job_id :: string
  source_system :: ATSType
  location :: "string option"
  remote_type :: RemoteType
  department :: "string option"
  posted_at :: "int option"
  description_text :: "string option"
  requirements :: "string list"

text \<open>
  \<^verbatim>\<open>
  def get_searchable_text(self):
      parts = [self.title]
      if self.description_text: parts.append(self.description_text)
      if self.requirements: parts.extend(self.requirements)
      if self.department: parts.append(self.department)
      return " ".join(parts)
  \<close>
\<close>

definition get_searchable_text :: "JobPosting \<Rightarrow> string" where
  "get_searchable_text job =
     (let parts = [title job];
          parts = (case description_text job of
                     Some t \<Rightarrow> if t \<noteq> [] then parts @ [t] else parts
                   | None \<Rightarrow> parts);
          parts = (if requirements job \<noteq> [] then parts @ requirements job else parts);
          parts = (case department job of
                     Some t \<Rightarrow> if t \<noteq> [] then parts @ [t] else parts
                   | None \<Rightarrow> parts)
      in join '' '' parts)"

text \<open>The key \<^verbatim>\<open>f"{company}:{source_system.value}:{source_job_id}"\<close>, built by
  \<^verbatim>\<open>Deduplicator._get_exact_key\<close> and by \<^verbatim>\<open>JobPosting.id\<close>.\<close>

definition get_exact_key :: "JobPosting \<Rightarrow> string" where
  "get_exact_key job =
     company job @ '':'' @ ATSType_value (source_system job) @ '':'' @ source_job_id job"

text \<open>\<^verbatim>\<open>JobPosting.id\<close>: the first 16 hex digits of the SHA-256 of the key. The
  parameter \<open>sha256_hex\<close> stands for \<^verbatim>\<open>sha256(key.encode()).hexdigest()\<close>.\<close>

definition job_id :: "(string \<Rightarrow> string) \<Rightarrow> JobPosting \<Rightarrow> string" where
  "job_id sha256_hex job = take 16 (sha256_hex (get_exact_key job))"

subsection \<open>dedup.py: the Deduplicator\<close>

text \<open>
  The state of a \<^verbatim>\<open>Deduplicator\<close>. The dictionary \<^verbatim>\<open>_seen_hashes\<close> is the list of
  its items in insertion order.
\<close>

record Deduplicator =
  similarity_threshold :: real
  job_exists_fn :: "(string \<Rightarrow> bool) option"
  seen_ids :: "string set"
  seen_hashes :: "(string \<times> int) list"

text \<open>\<^verbatim>\<open>Deduplicator(similarity_threshold=0.85, job_exists_fn=None)\<close>\<close>

definition Deduplicator_init :: "real \<Rightarrow> (string \<Rightarrow> bool) option \<Rightarrow> Deduplicator" where
  "Deduplicator_init threshold exists_fn =
     \<lparr>similarity_threshold = threshold, job_exists_fn = exists_fn,
      seen_ids = {}, seen_hashes = []\<rparr>"

text \<open>\<^verbatim>\<open>d[k] = v\<close> on a dictionary: an existing key keeps its place and takes the new
  value, a new key goes to the end.\<close>

fun dict_set :: "('k \<times> 'v) list \<Rightarrow> 'k \<Rightarrow> 'v \<Rightarrow> ('k \<times> 'v) list" where
  "dict_set [] k v = [(k, v)]"
| "dict_set ((k', v') # items) k v =
     (if k' = k then (k, v) # items else (k', v') # dict_set items k v)"

definition get_fuzzy_key :: "JobPosting \<Rightarrow> string" where
  "get_fuzzy_key job =
     (let title' = normalize_text (title job);
          location' = normalize_text (case location job of None \<Rightarrow> [] | Some l \<Rightarrow> l)
      in title' @ '':'' @ location')"

definition get_content_hash :: "(string \<Rightarrow> int) \<Rightarrow> JobPosting \<Rightarrow> int" where
  "get_content_hash md5_int job = (let text = get_searchable_text job in simhash md5_int text 64)"

text \<open>
  The loop of \<^verbatim>\<open>is_duplicate\<close> over \<^verbatim>\<open>self._seen_hashes.items()\<close>:
  \<^verbatim>\<open>
  for seen_key, seen_hash in self._seen_hashes.items():
      if seen_key == fuzzy_key:
          similarity = simhash_similarity(content_hash, seen_hash)
          if similarity >= self.similarity_threshold:
              return True
  \<close>
\<close>

fun fuzzy_scan :: "real \<Rightarrow> string \<Rightarrow> int \<Rightarrow> (string \<times> int) list \<Rightarrow> py_error + bool" where
  "fuzzy_scan threshold fuzzy_key content_hash [] = Inr False"
| "fuzzy_scan threshold fuzzy_key content_hash ((seen_key, seen_hash) # items) =
     (if seen_key = fuzzy_key then
        (case simhash_similarity content_hash seen_hash 64 of
           Inl e \<Rightarrow> Inl e
         | Inr similarity \<Rightarrow>
             if similarity \<ge> threshold then Inr True
             else fuzzy_scan threshold fuzzy_key content_hash items)
      else fuzzy_scan threshold fuzzy_key content_hash items)"

text \<open>\<^verbatim>\<open>Deduplicator.is_duplicate\<close>: the answer and the state after the call.\<close>

definition is_duplicate ::
  "(string \<Rightarrow> int) \<Rightarrow> (string \<Rightarrow> string) \<Rightarrow> Deduplicator \<Rightarrow> JobPosting
     \<Rightarrow> py_error + (bool \<times> Deduplicator)" where
  "is_duplicate md5_int sha256_hex d job =
     (let exact_key = get_exact_key job in
      if exact_key \<in> seen_ids d then Inr (True, d)
      else if (case job_exists_fn d of None \<Rightarrow> False | Some f \<Rightarrow> f (job_id sha256_hex job))
      then Inr (True, d)
      else
        let fuzzy_key = get_fuzzy_key job;
            content_hash = get_content_hash md5_int job
        in case fuzzy_scan (similarity_threshold d) fuzzy_key content_hash (seen_hashes d) of
             Inl e \<Rightarrow> Inl e
           | Inr True \<Rightarrow> Inr (True, d)
           | Inr False \<Rightarrow>
               Inr (False, d\<lparr>seen_ids := insert exact_key (seen_ids d),
                              seen_hashes := dict_set (seen_hashes d) fuzzy_key content_hash\<rparr>))"

text \<open>\<^verbatim>\<open>Deduplicator.dedupe\<close>: the unique jobs, in input order, and the state after.\<close>

fun dedupe ::
  "(string \<Rightarrow> int) \<Rightarrow> (string \<Rightarrow> string) \<Rightarrow> Deduplicator \<Rightarrow> JobPosting list
     \<Rightarrow> py_error + (JobPosting list \<times> Deduplicator)" where
  "dedupe md5_int sha256_hex d [] = Inr ([], d)"
| "dedupe md5_int sha256_hex d (job # jobs) =
     (case is_duplicate md5_int sha256_hex d job of
        Inl e \<Rightarrow> Inl e
      | Inr (dup, d') \<Rightarrow>
          (case dedupe md5_int sha256_hex d' jobs of
             Inl e \<Rightarrow> Inl e
           | Inr (unique, d'') \<Rightarrow> Inr (if \<not> dup then job # unique else unique, d'')))"

text \<open>A sequence of \<^verbatim>\<open>is_duplicate\<close> calls on one Deduplicator: the answers in order
  and the final state.\<close>

fun is_duplicate_calls ::
  "(string \<Rightarrow> int) \<Rightarrow> (string \<Rightarrow> string) \<Rightarrow> Deduplicator \<Rightarrow> JobPosting list
     \<Rightarrow> py_error + (bool list \<times> Deduplicator)" where
  "is_duplicate_calls md5_int sha256_hex d [] = Inr ([], d)"
| "is_duplicate_calls md5_int sha256_hex d (job # jobs) =
     (case is_duplicate md5_int sha256_hex d job of
        Inl e \<Rightarrow> Inl e
      | Inr (dup, d') \<Rightarrow>
          (case is_duplicate_calls md5_int sha256_hex d' jobs of
             Inl e \<Rightarrow> Inl e
           | Inr (dups, d'') \<Rightarrow> Inr (dup # dups, d'')))"

text \<open>A stand-in for the SHA-256 hex digest in examples.\<close>

definition example_sha256_hex :: "string \<Rightarrow> string" where
  "example_sha256_hex key = rev key"

subsection \<open>models: the matching profile and the scored posting\<close>

record MatchingProfile =
  desired_roles :: "string list"
  must_have_keywords :: "string list"
  must_not_keywords :: "string list"
  preferred_locations :: "string list"
  remote_preference :: "RemoteType option"
  min_score_threshold :: real
  vector_weight :: real
  keyword_weight :: real
  recency_weight :: real

text \<open>\<^verbatim>\<open>ScoredJobPosting\<close>; the scores and the reasons have the defaults 0.0 and \<open>[]\<close>.
  The field \<^verbatim>\<open>job\<close> is \<open>scored_job\<close> here.\<close>

record ScoredJobPosting =
  scored_job :: JobPosting
  final_score :: real
  vector_score :: real
  keyword_score :: real
  recency_score :: real
  match_reasons :: "string list"

subsection \<open>keyword.py: the compiled patterns\<close>

definition backslash :: char where
  "backslash = CHR 0x5C"

text \<open>\<^verbatim>\<open>re.escape\<close>: a backslash before each of
  \<^verbatim>\<open>()[]{}?*+-|^$\.&~#\<close>, the space, and tab, newline, carriage return, vertical tab and
  form feed.\<close>

definition re_special :: "char \<Rightarrow> bool" where
  "re_special c =
     (c \<in> set ''()[]{}?*+-|^$.&~# '' \<or> c = backslash \<or> (of_char c :: nat) \<in> {9, 10, 11, 12, 13})"

definition re_escape :: "string \<Rightarrow> string" where
  "re_escape s = concat (map (\<lambda>c. if re_special c then [backslash, c] else [c]) s)"

text \<open>
  A pattern compiled by \<^verbatim>\<open>re.compile(rf"\b{re.escape(kw)}\b", re.I)\<close>: its source text
  (the attribute \<^verbatim>\<open>pattern\<close>) and the phrase it matches literally.
\<close>

record compiled_pattern =
  pattern :: string
  phrase :: string

definition compile_keyword :: "string \<Rightarrow> compiled_pattern" where
  "compile_keyword kw =
     \<lparr>pattern = [backslash, CHR ''b''] @ re_escape kw @ [backslash, CHR ''b''], phrase = kw\<rparr>"

text \<open>\<^verbatim>\<open>\b\<close> at position \<open>i\<close> of \<open>s\<close>: exactly one of the characters before and
  after the position is a word character (the ends of the string count as non-word).\<close>

definition word_boundary :: "string \<Rightarrow> nat \<Rightarrow> bool" where
  "word_boundary s i =
     ((0 < i \<and> i \<le> length s \<and> is_word_char (s ! (i - 1)))
        \<noteq> (i < length s \<and> is_word_char (s ! i)))"

text \<open>The pattern matches at position \<open>i\<close>: the phrase stands there, case ignored,
  between two word boundaries.\<close>

definition matches_at :: "compiled_pattern \<Rightarrow> string \<Rightarrow> nat \<Rightarrow> bool" where
  "matches_at p s i =
     (i + length (phrase p) \<le> length s
      \<and> lower (take (length (phrase p)) (drop i s)) = lower (phrase p)
      \<and> word_boundary s i
      \<and> word_boundary s (i + length (phrase p)))"

text \<open>\<^verbatim>\<open>pattern.search(text)\<close>, as a truth value: the pattern matches somewhere.\<close>

definition search :: "compiled_pattern \<Rightarrow> string \<Rightarrow> bool" where
  "search p s = list_ex (matches_at p s) [0..<Suc (length s)]"

text \<open>\<^verbatim>\<open>needle in haystack\<close> on strings.\<close>

definition is_substring :: "string \<Rightarrow> string \<Rightarrow> bool" where
  "is_substring needle haystack =
     list_ex (\<lambda>i. take (length needle) (drop i haystack) = needle) [0..<Suc (length haystack)]"

subsection \<open>keyword.py: KeywordScorer\<close>

record KeywordScorer =
  ks_profile :: MatchingProfile
  must_have :: "compiled_pattern list"
  must_not :: "compiled_pattern list"
  role_patterns :: "compiled_pattern list"

text \<open>\<^verbatim>\<open>KeywordScorer(profile)\<close>, with \<^verbatim>\<open>_compile_patterns\<close>; \<open>role_patterns\<close> is the
  attribute \<^verbatim>\<open>_desired_roles\<close>.\<close>

definition KeywordScorer_init :: "MatchingProfile \<Rightarrow> KeywordScorer" where
  "KeywordScorer_init profile =
     \<lparr>ks_profile = profile,
      must_have = map compile_keyword (must_have_keywords profile),
      must_not = map compile_keyword (must_not_keywords profile),
      role_patterns = map compile_keyword (desired_roles profile)\<rparr>"

definition excluded_reason :: "compiled_pattern \<Rightarrow> string" where
  "excluded_reason p = ''Excluded: contains '' @ [CHR 0x27] @ pattern p @ [CHR 0x27]"

text \<open>
  \<^verbatim>\<open>KeywordScorer.score\<close> adds up four contributions, each with its reasons. The role
  loop stops at the first role pattern that matches the lowered title:
  \<^verbatim>\<open>
  role_match_score = 0.0
  for pattern in self._desired_roles:
      if pattern.search(title):
          role_match_score = 0.4
          reasons.append(f"Role match: {pattern.pattern}")
          break
  score += role_match_score
  \<close>
\<close>

definition role_contribution :: "KeywordScorer \<Rightarrow> JobPosting \<Rightarrow> real \<times> string list" where
  "role_contribution ks job =
     (let title' = lower (title job) in
      case find (\<lambda>p. search p title') (role_patterns ks) of
        Some p \<Rightarrow> (4 / 10, [''Role match: '' @ pattern p])
      | None \<Rightarrow> (0, []))"

text \<open>
  \<^verbatim>\<open>
  if self._must_have:
      matched_count = 0
      for pattern in self._must_have:
          if pattern.search(text):
              matched_count += 1
              reasons.append(f"Keyword: {pattern.pattern}")
      keyword_score = (matched_count / len(self._must_have)) * 0.4
      score += keyword_score
  else:
      score += 0.2
  \<close>
\<close>

definition must_have_contribution :: "KeywordScorer \<Rightarrow> JobPosting \<Rightarrow> real \<times> string list" where
  "must_have_contribution ks job =
     (let text = get_searchable_text job in
      if must_have ks \<noteq> [] then
        let matched = filter (\<lambda>p. search p text) (must_have ks);
            matched_count = length matched;
            keyword_score = (real matched_count / real (length (must_have ks))) * (4 / 10)
        in (keyword_score, map (\<lambda>p. ''Keyword: '' @ pattern p) matched)
      else (2 / 10, []))"

text \<open>
  \<^verbatim>\<open>
  if job.location and self.profile.preferred_locations:
      loc_lower = job.location.lower()
      for pref_loc in self.profile.preferred_locations:
          if pref_loc.lower() in loc_lower:
              score += 0.1
              reasons.append(f"Location: {pref_loc}")
              break
  \<close>
\<close>

definition location_contribution :: "KeywordScorer \<Rightarrow> JobPosting \<Rightarrow> real \<times> string list" where
  "location_contribution ks job =
     (case location job of
        None \<Rightarrow> (0, [])
      | Some loc \<Rightarrow>
          if loc \<noteq> [] \<and> preferred_locations (ks_profile ks) \<noteq> [] then
            let loc_lower = lower loc in
            case find (\<lambda>pref_loc. is_substring (lower pref_loc) loc_lower)
                   (preferred_locations (ks_profile ks)) of
              Some pref_loc \<Rightarrow> (1 / 10, [''Location: '' @ pref_loc])
            | None \<Rightarrow> (0, [])
          else (0, []))"

text \<open>
  \<^verbatim>\<open>
  if self.profile.remote_preference and job.remote_type == self.profile.remote_preference:
      score += 0.1
      reasons.append(f"Remote: {job.remote_type.value}")
  \<close>
  Every member of \<^verbatim>\<open>RemoteType\<close> is a non-empty string, hence true.
\<close>

definition remote_contribution :: "KeywordScorer \<Rightarrow> JobPosting \<Rightarrow> real \<times> string list" where
  "remote_contribution ks job =
     (case remote_preference (ks_profile ks) of
        None \<Rightarrow> (0, [])
      | Some preference \<Rightarrow>
          if remote_type job = preference
          then (1 / 10, [''Remote: '' @ RemoteType_value (remote_type job)])
          else (0, []))"

text \<open>
  \<^verbatim>\<open>KeywordScorer.score\<close>: the first loop returns at the first must-not pattern that
  matches the searchable text; otherwise the contributions are added in the order of the
  source and the sum is capped at 1.0.
\<close>

definition KeywordScorer_score :: "KeywordScorer \<Rightarrow> JobPosting \<Rightarrow> real \<times> string list" where
  "KeywordScorer_score ks job =
     (let text = get_searchable_text job in
      case find (\<lambda>p. search p text) (must_not ks) of
        Some p \<Rightarrow> (0, [excluded_reason p])
      | None \<Rightarrow>
          let score = 0;
              reasons = [];
              score = score + fst (role_contribution ks job);
              reasons = reasons @ snd (role_contribution ks job);
              score = score + fst (must_have_contribution ks job);
              reasons = reasons @ snd (must_have_contribution ks job);
              score = score + fst (location_contribution ks job);
              reasons = reasons @ snd (location_contribution ks job);
              score = score + fst (remote_contribution ks job);
              reasons = reasons @ snd (remote_contribution ks job)
          in (min score 1, reasons))"

subsection \<open>keyword.py: RecencyScorer\<close>

text \<open>
  \<^verbatim>\<open>RecencyScorer.score\<close>, for the clock reading \<open>now\<close> of \<^verbatim>\<open>datetime.now(timezone.utc)\<close>
  in microseconds since the epoch. \<^verbatim>\<open>age.total_seconds() / 86400\<close> is the difference in
  days; \<^verbatim>\<open>x ** 0.5\<close> is \<open>x powr (1 / 2)\<close>.
\<close>

definition age_in_days :: "int \<Rightarrow> int \<Rightarrow> real" where
  "age_in_days now posted = (real_of_int (now - posted) / 1000000) / 86400"

definition RecencyScorer_score :: "int \<Rightarrow> int \<Rightarrow> JobPosting \<Rightarrow> real" where
  "RecencyScorer_score max_age now job =
     (case posted_at job of
        None \<Rightarrow> 1 / 2
      | Some posted \<Rightarrow>
          let age_days = age_in_days now posted in
          if age_days \<le> 0 then 1
          else if age_days \<ge> real_of_int max_age then 0
          else
            let decay = 1 - (age_days / real_of_int max_age) powr (1 / 2)
            in max 0 (min 1 decay))"

subsection \<open>embeddings: the provider capability\<close>

text \<open>
  A call of \<^verbatim>\<open>embed\<close>, as the Scorer makes it: from \<^verbatim>\<open>_get_profile_embedding\<close> on the
  profile text, or from \<^verbatim>\<open>score\<close> on the text of a job; with the texts passed, and
  whether the call returned (\<open>True\<close>) or raised (\<open>False\<close>).
\<close>

datatype call_site = ProfileText | JobText

type_synonym embed_call = "call_site \<times> string list \<times> bool"

text \<open>A call with its outcome, as the Scorer records it.\<close>

definition logged :: "call_site \<Rightarrow> string list \<Rightarrow> py_error + real list list \<Rightarrow> embed_call" where
  "logged site texts answer = (site, texts, (case answer of Inl e \<Rightarrow> False | Inr v \<Rightarrow> True))"

text \<open>
  An embedding provider is the neutral \<^verbatim>\<open>NoEmbeddingProvider(dimension)\<close> or another
  backend. A backend is given by what its \<^verbatim>\<open>embed\<close> answers (it may depend on the calls
  made before, and may raise) and by its \<^verbatim>\<open>similarity\<close> (which may raise).
\<close>

datatype EmbeddingProvider =
    NoEmbeddingProvider nat
  | Backend "embed_call list \<Rightarrow> string list \<Rightarrow> py_error + real list list"
      "real list \<Rightarrow> real list \<Rightarrow> py_error + real"

text \<open>\<^verbatim>\<open>isinstance(provider, NoEmbeddingProvider)\<close>\<close>

fun is_NoEmbeddingProvider :: "EmbeddingProvider \<Rightarrow> bool" where
  "is_NoEmbeddingProvider (NoEmbeddingProvider dimension) = True"
| "is_NoEmbeddingProvider (Backend e s) = False"

fun provider_embed ::
  "EmbeddingProvider \<Rightarrow> embed_call list \<Rightarrow> string list \<Rightarrow> py_error + real list list" where
  "provider_embed (NoEmbeddingProvider dimension) history texts =
     Inr (map (\<lambda>t. replicate dimension 0) texts)"
| "provider_embed (Backend e s) history texts = e history texts"

fun provider_similarity ::
  "EmbeddingProvider \<Rightarrow> real list \<Rightarrow> real list \<Rightarrow> py_error + real" where
  "provider_similarity (NoEmbeddingProvider dimension) vec1 vec2 = Inr (1 / 2)"
| "provider_similarity (Backend e s) vec1 vec2 = s vec1 vec2"

subsection \<open>scorer.py: the Scorer\<close>

text \<open>The immutable attributes of a \<^verbatim>\<open>Scorer\<close>; \<open>max_age_days\<close> is the attribute of
  its \<^verbatim>\<open>RecencyScorer()\<close>.\<close>

record Scorer =
  profile :: MatchingProfile
  embedding_provider :: EmbeddingProvider
  keyword_scorer :: KeywordScorer
  max_age_days :: int

text \<open>
  What changes while a Scorer runs: the cache \<^verbatim>\<open>_profile_embedding\<close>, the calls of
  \<^verbatim>\<open>embed\<close> made so far, and the number of readings of the clock made so far (the
  \<open>n\<close>-th reading of \<^verbatim>\<open>datetime.now\<close> is \<open>clock n\<close>, a parameter).
\<close>

record scorer_state =
  profile_embedding :: "real list option"
  embed_calls :: "embed_call list"
  clock_reads :: nat

text \<open>\<^verbatim>\<open>Scorer(profile, embedding_provider=None)\<close>\<close>

definition Scorer_init :: "MatchingProfile \<Rightarrow> EmbeddingProvider option \<Rightarrow> Scorer" where
  "Scorer_init p provider =
     \<lparr>profile = p,
      embedding_provider = (case provider of Some b \<Rightarrow> b | None \<Rightarrow> NoEmbeddingProvider 384),
      keyword_scorer = KeywordScorer_init p,
      max_age_days = 30\<rparr>"

definition initial_state :: scorer_state where
  "initial_state = \<lparr>profile_embedding = None, embed_calls = [], clock_reads = 0\<rparr>"

text \<open>
  \<^verbatim>\<open>
  async def _get_profile_embedding(self):
      if self._profile_embedding is None:
          profile_text = " ".join([*self.profile.desired_roles,
                                   *self.profile.must_have_keywords])
          if profile_text:
              embeddings = await self.embedding_provider.embed([profile_text])
              self._profile_embedding = embeddings[0] if embeddings else []
          else:
              self._profile_embedding = []
      return self._profile_embedding
  \<close>
  When \<^verbatim>\<open>embed\<close> raises, the cache is not assigned.
\<close>

definition profile_text :: "Scorer \<Rightarrow> string" where
  "profile_text S = join '' '' (desired_roles (profile S) @ must_have_keywords (profile S))"

definition Scorer_get_profile_embedding ::
  "Scorer \<Rightarrow> scorer_state \<Rightarrow> (py_error + real list) \<times> scorer_state" where
  "Scorer_get_profile_embedding S st =
     (case profile_embedding st of
        Some cached \<Rightarrow> (Inr cached, st)
      | None \<Rightarrow>
          if profile_text S \<noteq> [] then
            let answer = provider_embed (embedding_provider S) (embed_calls st) [profile_text S];
                st1 = st\<lparr>embed_calls :=
                          embed_calls st @ [logged ProfileText [profile_text S] answer]\<rparr>
            in case answer of
                 Inl e \<Rightarrow> (Inl e, st1)
               | Inr embeddings \<Rightarrow>
                   let v = (case embeddings of [] \<Rightarrow> [] | first # others \<Rightarrow> first)
                   in (Inr v, st1\<lparr>profile_embedding := Some v\<rparr>)
          else (Inr [], st\<lparr>profile_embedding := Some []\<rparr>))"

text \<open>
  The vector score of \<^verbatim>\<open>Scorer.score\<close>:
  \<^verbatim>\<open>
  vector_score = 0.5
  if not isinstance(self.embedding_provider, NoEmbeddingProvider):
      try:
          profile_emb = await self._get_profile_embedding()
          if profile_emb:
              job_text = job.get_searchable_text()
              job_embeddings = await self.embedding_provider.embed([job_text])
              if job_embeddings:
                  raw_sim = self.embedding_provider.similarity(profile_emb, job_embeddings[0])
                  vector_score = (raw_sim + 1) / 2
      except Exception:
          vector_score = 0.5
  \<close>
\<close>

definition vector_step :: "Scorer \<Rightarrow> scorer_state \<Rightarrow> JobPosting \<Rightarrow> real \<times> scorer_state" where
  "vector_step S st job =
     (if is_NoEmbeddingProvider (embedding_provider S) then (1 / 2, st)
      else
        case Scorer_get_profile_embedding S st of
          (Inl e, st1) \<Rightarrow> (1 / 2, st1)
        | (Inr profile_emb, st1) \<Rightarrow>
            if profile_emb \<noteq> [] then
              let job_text = get_searchable_text job;
                  answer = provider_embed (embedding_provider S) (embed_calls st1) [job_text];
                  st2 = st1\<lparr>embed_calls := embed_calls st1 @ [logged JobText [job_text] answer]\<rparr>
              in case answer of
                   Inl e \<Rightarrow> (1 / 2, st2)
                 | Inr [] \<Rightarrow> (1 / 2, st2)
                 | Inr (first # others) \<Rightarrow>
                     (case provider_similarity (embedding_provider S) profile_emb first of
                        Inl e \<Rightarrow> (1 / 2, st2)
                      | Inr raw_sim \<Rightarrow> ((raw_sim + 1) / 2, st2))
            else (1 / 2, st1))"

text \<open>The recency score of \<^verbatim>\<open>Scorer.score\<close>: \<^verbatim>\<open>RecencyScorer.score\<close> reads the clock when
  the posting has a \<^verbatim>\<open>posted_at\<close>.\<close>

definition recency_step ::
  "Scorer \<Rightarrow> (nat \<Rightarrow> int) \<Rightarrow> scorer_state \<Rightarrow> JobPosting \<Rightarrow> real \<times> scorer_state" where
  "recency_step S clock st job =
     (RecencyScorer_score (max_age_days S) (clock (clock_reads st)) job,
      if posted_at job = None then st else st\<lparr>clock_reads := Suc (clock_reads st)\<rparr>)"

text \<open>The usual rounding of \<^verbatim>\<open>format\<close>: to the nearest integer, a tie to the even one.\<close>

definition round_half_even :: "real \<Rightarrow> int" where
  "round_half_even x =
     (let f = \<lfloor>x\<rfloor>; r = x - of_int f in
      if r < 1 / 2 then f else if r > 1 / 2 then f + 1 else if even f then f else f + 1)"

fun show_nat :: "nat \<Rightarrow> string" where
  "show_nat n =
     (if n < 10 then [''0123456789'' ! n]
      else show_nat (n div 10) @ [''0123456789'' ! (n mod 10)])"

text \<open>\<^verbatim>\<open>f"{x:.2f}"\<close>\<close>

definition format_2f :: "real \<Rightarrow> string" where
  "format_2f x =
     (let n = nat (round_half_even (\<bar>x\<bar> * 100)) in
      (if x < 0 then ''-'' else [])
        @ show_nat (n div 100) @ ''.'' @ show_nat (n mod 100 div 10) @ show_nat (n mod 10))"

text \<open>\<^verbatim>\<open>Scorer.score\<close>: the scored posting and the state after the call.\<close>

definition Scorer_score ::
  "Scorer \<Rightarrow> (nat \<Rightarrow> int) \<Rightarrow> scorer_state \<Rightarrow> JobPosting \<Rightarrow> ScoredJobPosting \<times> scorer_state" where
  "Scorer_score S clock st job =
     (let (kw_score, keyword_reasons) = KeywordScorer_score (keyword_scorer S) job in
      if kw_score = 0 \<and> keyword_reasons \<noteq> [] then
        (\<lparr>scored_job = job, final_score = 0, vector_score = 0, keyword_score = 0,
          recency_score = 0, match_reasons = keyword_reasons\<rparr>, st)
      else
        let (rec_score, st1) = recency_step S clock st job;
            (vec_score, st2) = vector_step S st1 job;
            final = vector_weight (profile S) * vec_score
                    + keyword_weight (profile S) * kw_score
                    + recency_weight (profile S) * rec_score;
            reasons = keyword_reasons;
            reasons = (if vec_score > 6 / 10
                       then reasons @ [''High semantic similarity: '' @ format_2f vec_score]
                       else reasons);
            reasons = (if rec_score > 7 / 10 then reasons @ [''Recently posted''] else reasons)
        in (\<lparr>scored_job = job, final_score = final, vector_score = vec_score,
             keyword_score = kw_score, recency_score = rec_score, match_reasons = reasons\<rparr>,
            st2))"

text \<open>The loop of \<^verbatim>\<open>score_batch\<close>: the retained scored postings so far, and the state.\<close>

fun score_loop ::
  "Scorer \<Rightarrow> (nat \<Rightarrow> int) \<Rightarrow> real \<Rightarrow> ScoredJobPosting list \<Rightarrow> scorer_state \<Rightarrow> JobPosting list
     \<Rightarrow> ScoredJobPosting list \<times> scorer_state" where
  "score_loop S clock threshold scored st [] = (scored, st)"
| "score_loop S clock threshold scored st (j # jobs) =
     (let (sj, st') = Scorer_score S clock st j in
      score_loop S clock threshold
        (if final_score sj \<ge> threshold then scored @ [sj] else scored) st' jobs)"

text \<open>
  \<^verbatim>\<open>xs.sort(key=f, reverse=True)\<close>: the list is reversed, sorted stably by ascending key,
  and reversed again.
\<close>

definition sort_reverse :: "('a \<Rightarrow> real) \<Rightarrow> 'a list \<Rightarrow> 'a list" where
  "sort_reverse f xs = rev (sort_key f (rev xs))"

text \<open>\<^verbatim>\<open>Scorer.score_batch(jobs, min_score=None)\<close>\<close>

definition Scorer_score_batch ::
  "Scorer \<Rightarrow> (nat \<Rightarrow> int) \<Rightarrow> scorer_state \<Rightarrow> JobPosting list \<Rightarrow> real option
     \<Rightarrow> ScoredJobPosting list \<times> scorer_state" where
  "Scorer_score_batch S clock st jobs min_score =
     (let threshold = (case min_score of Some m \<Rightarrow> m | None \<Rightarrow> min_score_threshold (profile S));
          (scored, st') = score_loop S clock threshold [] st jobs
      in (sort_reverse final_score scored, st'))"

text \<open>The scored postings of a list of jobs, one \<^verbatim>\<open>score\<close> call after the other.\<close>

fun score_each ::
  "Scorer \<Rightarrow> (nat \<Rightarrow> int) \<Rightarrow> scorer_state \<Rightarrow> JobPosting list
     \<Rightarrow> ScoredJobPosting list \<times> scorer_state" where
  "score_each S clock st [] = ([], st)"
| "score_each S clock st (j # jobs) =
     (let (sj, st1) = Scorer_score S clock st j;
          (rest, st2) = score_each S clock st1 jobs
      in (sj # rest, st2))"

text \<open>The profile of the tests, a backend whose \<^verbatim>\<open>embed\<close> always raises, and a
  clock that stands still, for the examples.\<close>

definition sample_profile :: MatchingProfile where
  "sample_profile =
     \<lparr>desired_roles = [''Software Engineer Intern'', ''Backend Intern''],
      must_have_keywords = [''Python'', ''backend''],
      must_not_keywords = [''senior'', ''staff''],
      preferred_locations = [''San Francisco'', ''Remote''],
      remote_preference = Some REMOTE,
      min_score_threshold = 3 / 10,
      vector_weight = 55 / 100, keyword_weight = 30 / 100, recency_weight = 15 / 100\<rparr>"

definition failing_backend :: EmbeddingProvider where
  "failing_backend = Backend (\<lambda>history texts. Inl ProviderError) (\<lambda>vec1 vec2. Inr 0)"

definition still_clock :: "nat \<Rightarrow> int" where
  "still_clock n = 0"

text \<open>
  A call of \<^verbatim>\<open>embed\<close> on the profile text that returned. While the cache is empty no
  such call has been made, and there is at most one in all.
\<close>

definition successful_profile_call :: "embed_call \<Rightarrow> bool" where
  "successful_profile_call c = (fst c = ProfileText \<and> snd (snd c))"

definition cache_invariant :: "scorer_state \<Rightarrow> bool" where
  "cache_invariant st =
     (length (filter successful_profile_call (embed_calls st))
        \<le> (if profile_embedding st = None then 0 else 1))"

text \<open>A profile without keywords and with weights 1, 1, 1, and a backend that answers
  every text with the same vector, for the examples.\<close>

definition open_profile :: MatchingProfile where
  "open_profile =
     \<lparr>desired_roles = [], must_have_keywords = [], must_not_keywords = [],
      preferred_locations = [], remote_preference = None, min_score_threshold = 3 / 10,
      vector_weight = 1, keyword_weight = 1, recency_weight = 1\<rparr>"

definition constant_backend :: EmbeddingProvider where
  "constant_backend = Backend (\<lambda>history texts. Inr (map (\<lambda>t. [1, 0]) texts)) (\<lambda>vec1 vec2. Inr 1)"

text \<open>A stand-in digest for evaluating examples. The theorems below hold for every
  digest function; this one only makes the examples closed terms.\<close>

definition example_digest :: "string \<Rightarrow> int" where
  "example_digest word = foldl (\<lambda>h c. (h * 131 + of_char c) mod 2 ^ 128) 7 word"

text \<open>The list that \<^verbatim>\<open>dedupe\<close> returns.\<close>

definition dedupe_result ::
  "(string \<Rightarrow> int) \<Rightarrow> (string \<Rightarrow> string) \<Rightarrow> Deduplicator \<Rightarrow> JobPosting list
     \<Rightarrow> py_error + JobPosting list" where
  "dedupe_result md5_int sha256_hex d jobs =
     (case dedupe md5_int sha256_hex d jobs of Inl e \<Rightarrow> Inl e | Inr (unique, d') \<Rightarrow> Inr unique)"

text \<open>The default of \<^verbatim>\<open>similarity_threshold\<close>.\<close>

definition default_similarity_threshold :: real where
  "default_similarity_threshold = 85 / 100"

text \<open>
  What the calls made so far have recorded for a fuzzy key: the content hash of the last
  job with that key for which \<^verbatim>\<open>is_duplicate\<close> answered \<^verbatim>\<open>False\<close>, if there is one.
\<close>

definition last_recorded ::
  "(string \<Rightarrow> int) \<Rightarrow> JobPosting list \<Rightarrow> bool list \<Rightarrow> string \<Rightarrow> int option" where
  "last_recorded md5_int jobs dups fuzzy_key =
     (let recorded = filter (\<lambda>(job, dup). \<not> dup \<and> get_fuzzy_key job = fuzzy_key) (zip jobs dups)
      in if recorded = [] then None else Some (get_content_hash md5_int (fst (last recorded))))"

text \<open>
  The claim about the fuzzy check, as the specification words it: after the exact-key
  check and the external check, the content hash of the new job is compared with the one
  fingerprint that the map holds for its fuzzy key, and with nothing else; a job that is
  not a duplicate is recorded, its fingerprint taking the place of the stored one.
  \<open>record_job\<close> is the recording step, \<open>single_fingerprint_answer\<close> the answer and the state
  after the call. They are compared with \<open>is_duplicate\<close> below.
\<close>

definition record_job :: "(string \<Rightarrow> int) \<Rightarrow> Deduplicator \<Rightarrow> JobPosting \<Rightarrow> Deduplicator" where
  "record_job md5_int d job =
     d\<lparr>seen_ids := insert (get_exact_key job) (seen_ids d),
       seen_hashes := dict_set (seen_hashes d) (get_fuzzy_key job) (get_content_hash md5_int job)\<rparr>"

definition single_fingerprint_answer ::
  "(string \<Rightarrow> int) \<Rightarrow> (string \<Rightarrow> string) \<Rightarrow> Deduplicator \<Rightarrow> JobPosting \<Rightarrow> bool \<times> Deduplicator" where
  "single_fingerprint_answer md5_int sha256_hex d job =
     (if get_exact_key job \<in> seen_ids d then (True, d)
      else if (case job_exists_fn d of None \<Rightarrow> False | Some f \<Rightarrow> f (job_id sha256_hex job))
      then (True, d)
      else
        case map_of (seen_hashes d) (get_fuzzy_key job) of
          None \<Rightarrow> (False, record_job md5_int d job)
        | Some stored \<Rightarrow>
            if similarity_threshold d
                 \<le> 1 - real_of_int (hamming_distance (get_content_hash md5_int job) stored 64) / 64
            then (True, d)
            else (False, record_job md5_int d job))"

text \<open>Example postings, as in \<^verbatim>\<open>tests/test_matching/test_scorer.py\<close>.\<close>

definition posting :: "string \<Rightarrow> string \<Rightarrow> string option \<Rightarrow> JobPosting" where
  "posting title' job_id' description =
     \<lparr>company = ''TestCo'', title = title', source_job_id = job_id',
      source_system = GREENHOUSE, location = None, remote_type = UNKNOWN_REMOTE,
      department = None, posted_at = None, description_text = description, requirements = []\<rparr>"

definition five_engineers :: "JobPosting list" where
  "five_engineers =
     [posting ''Engineer 0'' ''0'' None, posting ''Engineer 1'' ''1'' None,
      posting ''Engineer 2'' ''2'' None, posting ''Engineer 3'' ''3'' None,
      posting ''Engineer 4'' ''4'' None]"

section \<open>Properties of the text functions\<close>

declare split_ws.simps [simp del]
declare popcount.simps [simp del]

lemma dropWhile_all_space:
  "\<forall>c\<in>set s. is_space_char c \<Longrightarrow> dropWhile is_space_char s = []"
  by simp

lemma strip_all_space:
  "\<forall>c\<in>set s. is_space_char c \<Longrightarrow> strip s = []"
  by (simp add: strip_def dropWhile_all_space)

lemma sub_spaces_all_space:
  "\<forall>c\<in>set s. is_space_char c \<Longrightarrow> \<forall>c\<in>set (sub_spaces s). is_space_char c"
proof (induction s rule: sub_spaces.induct)
  case 1
  then show ?case by simp
next
  case (2 c cs)
  have sp: "is_space_char CHR '' ''" by (simp add: is_space_char_def)
  from 2(3) have c: "is_space_char c" by simp
  from 2(3) have "\<forall>x\<in>set (dropWhile is_space_char cs). is_space_char x"
    by (auto dest: set_dropWhileD)
  with 2(1) c have "\<forall>x\<in>set (sub_spaces (dropWhile is_space_char cs)). is_space_char x"
    by blast
  with c sp show ?case by simp
qed

lemma upper_is_word: "c \<in> set ''ABCDEFGHIJKLMNOPQRSTUVWXYZ'' \<Longrightarrow> is_word_char c"
  by (auto simp: is_word_char_def)

lemma lower_char_not_word: "\<not> is_word_char c \<Longrightarrow> lower_char c = c"
proof -
  assume "\<not> is_word_char c"
  then have n: "c \<notin> set ''ABCDEFGHIJKLMNOPQRSTUVWXYZ''"
    using upper_is_word by blast
  have l: "length ''ABCDEFGHIJKLMNOPQRSTUVWXYZ'' = length ''abcdefghijklmnopqrstuvwxyz''"
    by simp
  have "map_of (zip ''ABCDEFGHIJKLMNOPQRSTUVWXYZ'' ''abcdefghijklmnopqrstuvwxyz'') c = None"
    using n map_of_zip_is_None [OF l] by blast
  then show ?thesis unfolding lower_char_def by simp
qed

lemma normalize_text_no_word_char:
  assumes "\<forall>c\<in>set text. \<not> is_word_char c"
  shows "normalize_text text = []"
proof -
  have "lower text = text"
    using assms by (simp add: lower_def lower_char_not_word map_idI)
  then have "\<forall>c\<in>set (filter (\<lambda>c. is_word_char c \<or> is_space_char c) (lower text)). is_space_char c"
    using assms by auto
  then have "\<forall>c\<in>set (sub_spaces (filter (\<lambda>c. is_word_char c \<or> is_space_char c) (lower text))).
      is_space_char c"
    by (rule sub_spaces_all_space)
  then show ?thesis
    unfolding normalize_text_def Let_def by (rule strip_all_space)
qed

lemma popcount_0: "popcount 0 = 0"
  by (simp add: popcount.simps)

lemma hamming_distance_self: "hamming_distance h h bits = 0"
  by (simp add: hamming_distance_def popcount_0)

lemma simhash_no_words:
  "split_ws (normalize_text text) = [] \<Longrightarrow> simhash md5_int text hash_bits = 0"
  by (simp add: simhash_def)

text \<open>With a single word every vote is the bit of its digest, so the fingerprint
  is the digest cut to the width.\<close>

lemma votes_fold:
  fixes h :: int and v :: "int list"
  shows "k \<le> length v \<Longrightarrow>
    length (fold (\<lambda>i v. if h AND push_bit i 1 \<noteq> 0 then v[i := v ! i + 1] else v[i := v ! i - 1])
       [0..<k] v) = length v
    \<and> (\<forall>i<length v.
        fold (\<lambda>i v. if h AND push_bit i 1 \<noteq> 0 then v[i := v ! i + 1] else v[i := v ! i - 1])
          [0..<k] v ! i
        = (if i < k then (if bit h i then v ! i + 1 else v ! i - 1) else v ! i))"
proof (induction k)
  case 0
  then show ?case by simp
next
  case (Suc k)
  then have "k \<le> length v" by simp
  from Suc.IH [OF this] show ?case
    by (auto simp: bit_iff_and_push_bit_not_eq_0 nth_list_update less_Suc_eq)
qed

lemma simhash_votes_single:
  "i < n \<Longrightarrow> simhash_votes h n (replicate n 0) ! i = (if bit h i then 1 else - 1)"
  using votes_fold [of n "replicate n 0" h] by (auto simp: simhash_votes_def)

lemma fingerprint_fold_bits:
  "bit (fold (\<lambda>i fp. if P i then fp OR push_bit i 1 else fp) [0..<k] (0::int)) j
     = (j < k \<and> P j)"
  by (induction k) (auto simp: bit_or_iff bit_exp_iff less_Suc_eq)

lemma simhash_single_word:
  assumes "split_ws (normalize_text text) = [w]"
  shows "simhash md5_int text (int n) = take_bit n (md5_int w)"
proof -
  let ?v = "simhash_votes (md5_int w) n (replicate n 0)"
  have eq: "fold (\<lambda>i fp. if ?v ! i > 0 then fp OR push_bit i 1 else fp) [0..<n] (0::int)
      = fold (\<lambda>i fp. if (i < n \<and> bit (md5_int w) i) then fp OR push_bit i 1 else fp) [0..<n] 0"
    by (rule fold_cong) (auto simp: simhash_votes_single)
  have "simhash md5_int text (int n)
      = fold (\<lambda>i fp. if ?v ! i > 0 then fp OR push_bit i 1 else fp) [0..<n] 0"
    using assms by (simp add: simhash_def Let_def)
  also have "\<dots> = take_bit n (md5_int w)"
    unfolding eq by (rule bit_eqI) (auto simp: fingerprint_fold_bits bit_take_bit_iff)
  finally show ?thesis .
qed

lemma words_sql: "split_ws (normalize_text ''? sql'') = [''sql'']"
  by code_simp

lemma dig_sql: "example_digest ''sql'' = 17725063"
  by code_simp

lemma hash_sql: "simhash example_digest ''? sql'' 64 = 17725063"
  using simhash_single_word [OF words_sql, of example_digest 64] by (simp add: dig_sql)

lemma ham_sql: "hamming_distance 0 17725063 64 = 13" "hamming_distance 17725063 0 64 = 13"
  by (simp_all add: hamming_distance_def popcount.simps)

section \<open>Properties of the Deduplicator\<close>

lemma simhash_similarity_64: "simhash_similarity a b 64 = Inr (1 - real_of_int (hamming_distance a b 64) / 64)"
  by (simp add: simhash_similarity_def)

lemma fuzzy_scan_total: "\<exists>b. fuzzy_scan thr fk ch items = Inr b"
  by (induction items) (auto simp: simhash_similarity_64)

lemma fuzzy_scan_no_key:
  "fk \<notin> fst ` set items \<Longrightarrow> fuzzy_scan thr fk ch items = Inr False"
  by (induction items) auto

lemma fuzzy_scan_map_of:
  "distinct (map fst items) \<Longrightarrow>
   fuzzy_scan thr fk ch items =
     (case map_of items fk of
        None \<Rightarrow> Inr False
      | Some h \<Rightarrow> Inr (thr \<le> 1 - real_of_int (hamming_distance ch h 64) / 64))"
proof (induction items)
  case Nil
  then show ?case by simp
next
  case (Cons a items)
  obtain k h where a: "a = (k, h)" by (cases a)
  show ?case
  proof (cases "k = fk")
    case True
    with Cons a have "fk \<notin> fst ` set items" by auto
    then have "fuzzy_scan thr fk ch items = Inr False" by (rule fuzzy_scan_no_key)
    with True a show ?thesis by (simp add: simhash_similarity_64)
  next
    case False
    with Cons a show ?thesis by simp
  qed
qed

lemma dict_set_keys: "fst ` set (dict_set items k v) = insert k (fst ` set items)"
  by (induction items k v rule: dict_set.induct) (simp_all add: insert_commute)

lemma dict_set_distinct:
  "distinct (map fst items) \<Longrightarrow> distinct (map fst (dict_set items k v))"
proof (induction items)
  case Nil
  then show ?case by simp
next
  case (Cons a items)
  obtain k' v' where a: "a = (k', v')" by (cases a)
  have "fst ` set (dict_set items k v) = insert k (fst ` set items)" by (rule dict_set_keys)
  with Cons a show ?case by auto
qed

lemma dict_set_map_of: "map_of (dict_set items k v) = (map_of items)(k \<mapsto> v)"
  by (induction items) (auto simp: fun_eq_iff)

lemma is_duplicate_total: "\<exists>b d'. is_duplicate md5_int sha d job = Inr (b, d')"
proof -
  obtain b where "fuzzy_scan (similarity_threshold d) (get_fuzzy_key job)
      (get_content_hash md5_int job) (seen_hashes d) = Inr b"
    using fuzzy_scan_total by blast
  then show ?thesis
    by (cases b) (auto simp: is_duplicate_def Let_def)
qed

lemma is_duplicate_True: "is_duplicate md5_int sha d job = Inr (True, d') \<Longrightarrow> d' = d"
  by (auto simp: is_duplicate_def Let_def split: if_splits sum.splits bool.splits)

lemma is_duplicate_False:
  "is_duplicate md5_int sha d job = Inr (False, d') \<Longrightarrow>
     d' = d\<lparr>seen_ids := insert (get_exact_key job) (seen_ids d),
            seen_hashes := dict_set (seen_hashes d) (get_fuzzy_key job) (get_content_hash md5_int job)\<rparr>"
  by (auto simp: is_duplicate_def Let_def split: if_splits sum.splits bool.splits)

lemma is_duplicate_seen: "get_exact_key job \<in> seen_ids d \<Longrightarrow> is_duplicate md5_int sha d job = Inr (True, d)"
  by (simp add: is_duplicate_def)

lemma is_duplicate_new':
  assumes "get_exact_key job \<notin> seen_ids d"
    and "\<not> (case job_exists_fn d of None \<Rightarrow> False | Some f \<Rightarrow> f (job_id sha job))"
    and "get_fuzzy_key job \<notin> fst ` set (seen_hashes d)"
  shows "is_duplicate md5_int sha d job =
     Inr (False, d\<lparr>seen_ids := insert (get_exact_key job) (seen_ids d),
            seen_hashes := dict_set (seen_hashes d) (get_fuzzy_key job) (get_content_hash md5_int job)\<rparr>)"
  using assms fuzzy_scan_no_key [OF assms(3)] by (simp add: is_duplicate_def Let_def)

lemma dedupe_append:
  "dedupe m s d (xs @ ys) =
     (case dedupe m s d xs of
        Inl e \<Rightarrow> Inl e
      | Inr (u, d') \<Rightarrow>
          (case dedupe m s d' ys of Inl e \<Rightarrow> Inl e | Inr (u', d'') \<Rightarrow> Inr (u @ u', d'')))"
  by (induction xs arbitrary: d) (auto split: sum.splits prod.splits)

lemma dedupe_all_new:
  assumes "distinct (map get_exact_key js)"
    and "distinct (map get_fuzzy_key js)"
    and "\<forall>j\<in>set js. get_exact_key j \<notin> seen_ids d"
    and "\<forall>j\<in>set js. get_fuzzy_key j \<notin> fst ` set (seen_hashes d)"
    and "\<forall>j\<in>set js. \<not> (case job_exists_fn d of None \<Rightarrow> False | Some f \<Rightarrow> f (job_id s j))"
  shows "\<exists>d'. dedupe m s d js = Inr (js, d') \<and> seen_ids d' = seen_ids d \<union> get_exact_key ` set js"
  using assms
proof (induction js arbitrary: d)
  case Nil
  then show ?case by simp
next
  case (Cons j js)
  let ?d1 = "d\<lparr>seen_ids := insert (get_exact_key j) (seen_ids d),
            seen_hashes := dict_set (seen_hashes d) (get_fuzzy_key j) (get_content_hash m j)\<rparr>"
  have step: "is_duplicate m s d j = Inr (False, ?d1)"
    using Cons.prems by (intro is_duplicate_new') auto
  have "\<exists>d'. dedupe m s ?d1 js = Inr (js, d') \<and> seen_ids d' = seen_ids ?d1 \<union> get_exact_key ` set js"
  proof (rule Cons.IH)
    show "distinct (map get_exact_key js)" using Cons.prems by simp
    show "distinct (map get_fuzzy_key js)" using Cons.prems by simp
    show "\<forall>j\<in>set js. get_exact_key j \<notin> seen_ids ?d1"
      using Cons.prems by (auto simp: image_iff; metis)
    show "\<forall>j\<in>set js. get_fuzzy_key j \<notin> fst ` set (seen_hashes ?d1)"
      using Cons.prems by (auto simp: dict_set_keys image_iff; metis)
    show "\<forall>j\<in>set js. \<not> (case job_exists_fn ?d1 of None \<Rightarrow> False | Some f \<Rightarrow> f (job_id s j))"
      using Cons.prems by simp
  qed
  then obtain d' where "dedupe m s ?d1 js = Inr (js, d')"
     "seen_ids d' = seen_ids ?d1 \<union> get_exact_key ` set js" by blast
  with step show ?case by auto
qed

lemma exact_copy_is_duplicate:
  assumes "company j1 = company j2" "source_system j1 = source_system j2"
    "source_job_id j1 = source_job_id j2"
    and "is_duplicate m s d j1 = Inr (False, d')"
  shows "is_duplicate m s d' j2 = Inr (True, d')"
proof -
  have "get_exact_key j2 = get_exact_key j1" using assms by (simp add: get_exact_key_def)
  moreover have "get_exact_key j1 \<in> seen_ids d'"
    using is_duplicate_False [OF assms(4)] by simp
  ultimately show ?thesis by (simp add: is_duplicate_seen)
qed

lemma dedupe_with_copy:
  assumes "js \<noteq> []" "distinct (map get_exact_key js)" "distinct (map get_fuzzy_key js)"
    and "seen_ids d = {}" "seen_hashes d = []"
    and "\<forall>j\<in>set js. \<not> (case job_exists_fn d of None \<Rightarrow> False | Some f \<Rightarrow> f (job_id s j))"
  shows "dedupe_result m s d (js @ [hd js]) = Inr js"
proof -
  obtain d' where a: "dedupe m s d js = Inr (js, d')"
     and b: "seen_ids d' = seen_ids d \<union> get_exact_key ` set js"
    using dedupe_all_new [of js d s m] assms by auto
  have "hd js \<in> set js" using assms(1) by simp
  then have "get_exact_key (hd js) \<in> seen_ids d'" using b by blast
  then have "is_duplicate m s d' (hd js) = Inr (True, d')" by (rule is_duplicate_seen)
  then show ?thesis
    using a by (simp add: dedupe_result_def dedupe_append)
qed

lemma is_duplicate_calls_snoc:
  "is_duplicate_calls m s d (js @ [j]) =
     (case is_duplicate_calls m s d js of
        Inl e \<Rightarrow> Inl e
      | Inr (bs, d') \<Rightarrow>
          (case is_duplicate m s d' j of Inl e \<Rightarrow> Inl e | Inr (b, d'') \<Rightarrow> Inr (bs @ [b], d'')))"
  by (induction js arbitrary: d) (auto split: sum.splits prod.splits)

lemma is_duplicate_calls_length:
  "is_duplicate_calls m s d js = Inr (bs, d') \<Longrightarrow> length bs = length js"
  by (induction js arbitrary: d bs) (auto split: sum.splits prod.splits)

lemma is_duplicate_calls_total: "\<exists>bs d'. is_duplicate_calls m s d js = Inr (bs, d')"
proof (induction js arbitrary: d)
  case Nil
  then show ?case by simp
next
  case (Cons j js)
  obtain b d1 where a: "is_duplicate m s d j = Inr (b, d1)"
    using is_duplicate_total by blast
  obtain bs d2 where "is_duplicate_calls m s d1 js = Inr (bs, d2)"
    using Cons by blast
  with a show ?case by simp
qed

lemma last_recorded_Nil: "last_recorded m [] [] k = None"
  by (simp add: last_recorded_def)

lemma last_recorded_snoc:
  "length bs = length js \<Longrightarrow>
   last_recorded m (js @ [j]) (bs @ [b]) k =
     (if \<not> b \<and> get_fuzzy_key j = k then Some (get_content_hash m j) else last_recorded m js bs k)"
  by (simp add: last_recorded_def Let_def)

lemma is_duplicate_calls_seen_hashes:
  assumes "distinct (map fst (seen_hashes d))"
    and "is_duplicate_calls m s d jobs = Inr (dups, d')"
  shows "distinct (map fst (seen_hashes d')) \<and>
     (\<forall>k. map_of (seen_hashes d') k =
        (case last_recorded m jobs dups k of Some h \<Rightarrow> Some h | None \<Rightarrow> map_of (seen_hashes d) k))"
  using assms(2)
proof (induction jobs arbitrary: dups d' rule: rev_induct)
  case Nil
  then show ?case using assms(1) by (simp add: last_recorded_Nil)
next
  case (snoc j js)
  obtain bs d1 where a: "is_duplicate_calls m s d js = Inr (bs, d1)"
    using is_duplicate_calls_total by blast
  obtain b where b: "is_duplicate m s d1 j = Inr (b, d')" and dups: "dups = bs @ [b]"
    using snoc.prems a by (auto simp: is_duplicate_calls_snoc split: sum.splits prod.splits)
  have len: "length bs = length js" using a by (rule is_duplicate_calls_length)
  have ih: "distinct (map fst (seen_hashes d1))"
     "\<And>k. map_of (seen_hashes d1) k =
        (case last_recorded m js bs k of Some h \<Rightarrow> Some h | None \<Rightarrow> map_of (seen_hashes d) k)"
    using snoc.IH [OF a] by auto
  show ?case
  proof (cases b)
    case True
    with b have "is_duplicate m s d1 j = Inr (True, d')" by simp
    then have "d' = d1" by (rule is_duplicate_True)
    with True ih dups len show ?thesis by (simp add: last_recorded_snoc)
  next
    case False
    with b have "is_duplicate m s d1 j = Inr (False, d')" by simp
    from is_duplicate_False [OF this]
    have d': "seen_hashes d' = dict_set (seen_hashes d1) (get_fuzzy_key j) (get_content_hash m j)"
      by simp
    have "distinct (map fst (seen_hashes d'))"
      using ih(1) d' by (simp add: dict_set_distinct)
    moreover have "map_of (seen_hashes d') k =
        (case last_recorded m (js @ [j]) dups k of Some h \<Rightarrow> Some h | None \<Rightarrow> map_of (seen_hashes d) k)"
      for k
      using False dups len ih(2) [of k] by (simp add: d' dict_set_map_of last_recorded_snoc)
    ultimately show ?thesis by blast
  qed
qed

lemma fuzzy_scan_single:
  "distinct (map fst items) \<Longrightarrow>
   fuzzy_scan thr fk ch items =
     (case map_of items fk of
        None \<Rightarrow> Inr False
      | Some h \<Rightarrow>
          (case simhash_similarity ch h 64 of Inl e \<Rightarrow> Inl e | Inr similarity \<Rightarrow> Inr (thr \<le> similarity)))"
  by (simp add: fuzzy_scan_map_of simhash_similarity_64 split: option.splits)

lemmas text_eval =
  normalize_text_def lower_def lower_char_def is_word_char_def is_space_char_def strip_def

lemma posting_exact_key: "get_exact_key (posting t i x) = ''TestCo:greenhouse:'' @ i"
  by (simp add: get_exact_key_def posting_def)

lemma normalize_text_Nil: "normalize_text [] = []"
  by (rule normalize_text_no_word_char) simp

lemma posting_fuzzy_key: "get_fuzzy_key (posting t i x) = normalize_text t @ '':''"
  by (simp add: get_fuzzy_key_def posting_def normalize_text_Nil)

lemma posting_content_hash:
  "get_content_hash m (posting t i None) = simhash m t 64"
  by (simp add: get_content_hash_def get_searchable_text_def posting_def)

lemma norm_engineer:
  "normalize_text ''Engineer'' = ''engineer''"
  "normalize_text ''Engineer 0'' = ''engineer 0''"
  "normalize_text ''Engineer 1'' = ''engineer 1''"
  "normalize_text ''Engineer 2'' = ''engineer 2''"
  "normalize_text ''Engineer 3'' = ''engineer 3''"
  "normalize_text ''Engineer 4'' = ''engineer 4''"
  by (simp_all add: text_eval)

lemma is_duplicate_fuzzy_hit:
  assumes "get_exact_key job \<notin> seen_ids d"
    and "job_exists_fn d = None"
    and "seen_hashes d = [(get_fuzzy_key job, get_content_hash m job)]"
    and "similarity_threshold d \<le> 1"
  shows "is_duplicate m s d job = Inr (True, d)"
  using assms by (simp add: is_duplicate_def Let_def simhash_similarity_64 hamming_distance_self)

lemma dedupe_all_duplicates:
  "\<forall>j\<in>set js. is_duplicate m s d j = Inr (True, d) \<Longrightarrow> dedupe m s d js = Inr ([], d)"
  by (induction js) simp_all

lemma is_duplicate_single:
  "distinct (map fst (seen_hashes d)) \<Longrightarrow>
   is_duplicate m s d job = Inr (single_fingerprint_answer m s d job)"
  by (simp add: is_duplicate_def single_fingerprint_answer_def record_job_def Let_def
      fuzzy_scan_map_of split: option.splits)

lemma is_duplicate_calls_append:
  "is_duplicate_calls m s d (xs @ ys) =
     (case is_duplicate_calls m s d xs of
        Inl e \<Rightarrow> Inl e
      | Inr (bs, d1) \<Rightarrow>
          (case is_duplicate_calls m s d1 ys of
             Inl e \<Rightarrow> Inl e
           | Inr (cs, d2) \<Rightarrow> Inr (bs @ cs, d2)))"
  by (induction xs arbitrary: d) (auto split: sum.splits prod.splits)

lemma is_duplicate_calls_nth:
  assumes dis: "distinct (map fst (seen_hashes d))"
    and run: "is_duplicate_calls m s d jobs = Inr (dups, d')"
    and n: "n < length jobs"
  shows "\<exists>bs dn. is_duplicate_calls m s d (take n jobs) = Inr (bs, dn)
     \<and> distinct (map fst (seen_hashes dn))
     \<and> is_duplicate m s dn (jobs ! n) = Inr (single_fingerprint_answer m s dn (jobs ! n))
     \<and> dups ! n = fst (single_fingerprint_answer m s dn (jobs ! n))"
proof -
  obtain bs dn where pre: "is_duplicate_calls m s d (take n jobs) = Inr (bs, dn)"
    using is_duplicate_calls_total by blast
  have dn: "distinct (map fst (seen_hashes dn))"
    using is_duplicate_calls_seen_hashes [OF dis pre] by blast
  have len: "length bs = n"
    using is_duplicate_calls_length [OF pre] n by simp
  have one: "is_duplicate m s dn (jobs ! n) = Inr (single_fingerprint_answer m s dn (jobs ! n))"
    using dn by (rule is_duplicate_single)
  obtain cs d2 where rest: "is_duplicate_calls m s (snd (single_fingerprint_answer m s dn (jobs ! n)))
      (drop (Suc n) jobs) = Inr (cs, d2)"
    using is_duplicate_calls_total by blast
  have split: "jobs = take n jobs @ (jobs ! n # drop (Suc n) jobs)"
    using n by (simp add: id_take_nth_drop [symmetric])
  have "is_duplicate_calls m s d (take n jobs @ (jobs ! n # drop (Suc n) jobs))
      = Inr (bs @ (fst (single_fingerprint_answer m s dn (jobs ! n)) # cs), d2)"
    by (simp add: is_duplicate_calls_append pre one rest split_beta)
  with split run have "dups = bs @ (fst (single_fingerprint_answer m s dn (jobs ! n)) # cs)"
    by simp
  then have "dups ! n = fst (single_fingerprint_answer m s dn (jobs ! n))"
    using len by (simp add: nth_append)
  with pre dn one show ?thesis by blast
qed

lemma question_no_words: "split_ws (normalize_text ''?'') = []"
  by (simp add: normalize_text_no_word_char is_word_char_def split_ws.simps)

lemma question_fuzzy_key: "get_fuzzy_key (posting ''?'' i x) = '':''"
  by (simp add: posting_fuzzy_key normalize_text_no_word_char is_word_char_def)

lemma question_content_hash:
  "get_content_hash m (posting ''?'' i None) = 0"
  "get_content_hash example_digest (posting ''?'' i (Some ''sql'')) = 17725063"
  by (simp_all add: posting_content_hash simhash_no_words question_no_words)
     (simp add: get_content_hash_def get_searchable_text_def posting_def hash_sql)


section \<open>Claims about SimHash\<close>

text \<open>
  C9: a text that normalises to no words (in particular one without any word character)
  has fingerprint 0, for every digest and every width; the similarity of a hash with
  itself is 1.0, at the default width 64, which every call of the repository uses, and at
  every other positive width; so two texts without words are reported as fully similar.
\<close>

theorem simhash_empty_and_self_similarity:
  "(split_ws (normalize_text text) = [] \<longrightarrow> simhash md5_int text hash_bits = 0)
   \<and> ((\<forall>c\<in>set text. \<not> is_word_char c) \<longrightarrow> simhash md5_int text hash_bits = 0)
   \<and> simhash_similarity h h 64 = Inr 1
   \<and> (0 < bits \<longrightarrow> simhash_similarity h h bits = Inr 1)
   \<and> (split_ws (normalize_text text) = [] \<and> split_ws (normalize_text text') = []
        \<longrightarrow> simhash_similarity (simhash md5_int text 64) (simhash md5_int text' 64) 64 = Inr 1)
   \<and> (split_ws (normalize_text text) = [] \<and> split_ws (normalize_text text') = [] \<and> 0 < bits
        \<longrightarrow> simhash_similarity (simhash md5_int text hash_bits) (simhash md5_int text' hash_bits) bits
            = Inr 1)"
proof -
  have a: "simhash md5_int t hash_bits = 0" if "\<forall>c\<in>set t. \<not> is_word_char c" for t
  proof -
    from that have "normalize_text t = []" by (rule normalize_text_no_word_char)
    then have "split_ws (normalize_text t) = []" by (simp add: split_ws.simps)
    then show ?thesis by (rule simhash_no_words)
  qed
  have b: "simhash_similarity x x n = Inr 1" if "0 < n" for x n
    using that by (simp add: simhash_similarity_def hamming_distance_self)
  have c: "simhash_similarity x x 64 = Inr 1" for x
    by (rule b) simp
  show ?thesis
    using a b c by (simp add: simhash_no_words)
qed

theorem simhash_empty_and_self_similarity_witness:
  "split_ws (normalize_text '' ?! '') = []
   \<and> list_all (\<lambda>c. \<not> is_word_char c) '' ?! ''
   \<and> (0::int) < 32
   \<and> simhash example_digest '' ?! '' 64 = 0
   \<and> simhash_similarity 12345 12345 64 = Inr 1
   \<and> simhash_similarity 12345 12345 32 = Inr 1
   \<and> simhash_similarity (simhash example_digest '' ?! '' 64) (simhash example_digest [] 64) 64 = Inr 1"
proof -
  have w: "\<forall>c\<in>set '' ?! ''. \<not> is_word_char c"
    by (simp add: is_word_char_def)
  have e: "split_ws (normalize_text '' ?! '') = []"
    by (simp add: normalize_text_no_word_char [OF w] split_ws.simps)
  have e': "split_ws (normalize_text []) = []"
    by (simp add: normalize_text_no_word_char split_ws.simps)
  have n: "(0::int) < 32" by simp
  note T = simhash_empty_and_self_similarity
      [of "'' ?! ''" example_digest 64 12345 32 "[]"]
  from T e have c1: "simhash example_digest '' ?! '' 64 = 0"
    by blast
  from T have c2: "simhash_similarity 12345 12345 64 = Inr 1"
    by blast
  from T n have c3: "simhash_similarity 12345 12345 32 = Inr 1"
    by blast
  from T e e' have c4:
    "simhash_similarity (simhash example_digest '' ?! '' 64) (simhash example_digest [] 64) 64 = Inr 1"
    by blast
  have w': "list_all (\<lambda>c. \<not> is_word_char c) '' ?! ''"
    using w by (simp only: list_all_iff)
  from e w' n c1 c2 c3 c4 show ?thesis
    by blast
qed

section \<open>Claims about the Deduplicator\<close>

text \<open>
  C4, as stated: after \<^verbatim>\<open>is_duplicate\<close> has answered \<^verbatim>\<open>False\<close> for a posting, the next call
  answers \<^verbatim>\<open>True\<close> for a posting with the same company, source system and source job id;
  and for 5 pairwise distinct postings plus a copy of the first, \<^verbatim>\<open>dedupe\<close> returns the 5
  postings. The second part fails for postings that differ only in their source job id:
  they share the fuzzy key and the content hash, and the fuzzy check drops all but the
  first.
\<close>

theorem dedupe_same_title_counterexample:
  "dedupe_result example_digest example_sha256_hex
     (Deduplicator_init default_similarity_threshold None)
     [posting ''Engineer'' ''0'' None, posting ''Engineer'' ''1'' None,
      posting ''Engineer'' ''2'' None, posting ''Engineer'' ''3'' None,
      posting ''Engineer'' ''4'' None, posting ''Engineer'' ''0'' None]
     = Inr [posting ''Engineer'' ''0'' None]
   \<and> distinct [posting ''Engineer'' ''0'' None, posting ''Engineer'' ''1'' None,
      posting ''Engineer'' ''2'' None, posting ''Engineer'' ''3'' None,
      posting ''Engineer'' ''4'' None]"
proof -
  let ?d0 = "Deduplicator_init default_similarity_threshold None"
  let ?p0 = "posting ''Engineer'' ''0'' None"
  let ?rest = "[posting ''Engineer'' ''1'' None,
      posting ''Engineer'' ''2'' None, posting ''Engineer'' ''3'' None,
      posting ''Engineer'' ''4'' None, posting ''Engineer'' ''0'' None]"
  define d1 where "d1 = ?d0\<lparr>seen_ids := insert (get_exact_key ?p0) (seen_ids ?d0),
        seen_hashes := dict_set (seen_hashes ?d0) (get_fuzzy_key ?p0)
          (get_content_hash example_digest ?p0)\<rparr>"
  have first: "is_duplicate example_digest example_sha256_hex ?d0 ?p0 = Inr (False, d1)"
    unfolding d1_def by (rule is_duplicate_new') (simp_all add: Deduplicator_init_def)
  have later: "is_duplicate example_digest example_sha256_hex d1 (posting ''Engineer'' i None)
      = Inr (True, d1)" if "i \<noteq> ''0''" for i
    by (rule is_duplicate_fuzzy_hit)
      (simp_all add: that d1_def Deduplicator_init_def default_similarity_threshold_def
         posting_exact_key posting_fuzzy_key posting_content_hash)
  have copy: "is_duplicate example_digest example_sha256_hex d1 ?p0 = Inr (True, d1)"
    by (rule is_duplicate_seen) (simp add: d1_def)
  have "\<forall>j\<in>set ?rest. is_duplicate example_digest example_sha256_hex d1 j = Inr (True, d1)"
    by (simp add: later copy)
  then have "dedupe example_digest example_sha256_hex d1 ?rest = Inr ([], d1)"
    by (rule dedupe_all_duplicates)
  then have "dedupe example_digest example_sha256_hex ?d0 (?p0 # ?rest) = Inr ([?p0], d1)"
    using first by (simp only: dedupe.simps sum.case prod.case not_False_eq_True if_True)
  then have r1: "dedupe_result example_digest example_sha256_hex ?d0 (?p0 # ?rest) = Inr [?p0]"
    by (simp only: dedupe_result_def sum.case prod.case)
  have r2: "distinct [posting ''Engineer'' ''0'' None, posting ''Engineer'' ''1'' None,
      posting ''Engineer'' ''2'' None, posting ''Engineer'' ''3'' None,
      posting ''Engineer'' ''4'' None]"
    by (simp add: posting_def)
  show ?thesis by (rule conjI [OF r1 r2])
qed

text \<open>
  C4, amended: the first part as stated, for every state of the Deduplicator; and for a
  Deduplicator with empty session state and no external hit, every non-empty list of
  postings with pairwise distinct exact keys and pairwise distinct fuzzy keys, followed by
  a copy of its first posting, is deduplicated to exactly that list, in input order.
\<close>

theorem exact_copy_is_duplicate_and_dedupe_drops_it:
  "(company j1 = company j2 \<and> source_system j1 = source_system j2
      \<and> source_job_id j1 = source_job_id j2
      \<and> is_duplicate md5_int sha256_hex d j1 = Inr (False, d')
     \<longrightarrow> is_duplicate md5_int sha256_hex d' j2 = Inr (True, d'))
   \<and> (jobs \<noteq> [] \<and> distinct (map get_exact_key jobs) \<and> distinct (map get_fuzzy_key jobs)
      \<and> seen_ids d0 = {} \<and> seen_hashes d0 = []
      \<and> (\<forall>j\<in>set jobs.
            \<not> (case job_exists_fn d0 of None \<Rightarrow> False | Some f \<Rightarrow> f (job_id sha256_hex j)))
     \<longrightarrow> dedupe_result md5_int sha256_hex d0 (jobs @ [hd jobs]) = Inr jobs)"
  using exact_copy_is_duplicate [of j1 j2 md5_int sha256_hex d d']
    dedupe_with_copy [of jobs d0 sha256_hex md5_int]
  by blast

theorem exact_copy_is_duplicate_and_dedupe_drops_it_witness:
  "is_duplicate example_digest example_sha256_hex
       (Deduplicator_init default_similarity_threshold None) (posting ''Engineer 0'' ''0'' None)
     = Inr (False,
         \<lparr>similarity_threshold = default_similarity_threshold, job_exists_fn = None,
          seen_ids = {''TestCo:greenhouse:0''},
          seen_hashes = [(''engineer 0:'', simhash example_digest ''Engineer 0'' 64)]\<rparr>)
   \<and> is_duplicate example_digest example_sha256_hex
       \<lparr>similarity_threshold = default_similarity_threshold, job_exists_fn = None,
          seen_ids = {''TestCo:greenhouse:0''},
          seen_hashes = [(''engineer 0:'', simhash example_digest ''Engineer 0'' 64)]\<rparr>
       (posting ''Engineer 0'' ''0'' (Some ''a copy''))
     = Inr (True,
         \<lparr>similarity_threshold = default_similarity_threshold, job_exists_fn = None,
          seen_ids = {''TestCo:greenhouse:0''},
          seen_hashes = [(''engineer 0:'', simhash example_digest ''Engineer 0'' 64)]\<rparr>)
   \<and> dedupe_result example_digest example_sha256_hex
       (Deduplicator_init default_similarity_threshold None)
       (five_engineers @ [posting ''Engineer 0'' ''0'' None])
     = Inr five_engineers"
proof -
  let ?d0 = "Deduplicator_init default_similarity_threshold None"
  let ?d1 = "\<lparr>similarity_threshold = default_similarity_threshold, job_exists_fn = None,
          seen_ids = {''TestCo:greenhouse:0''},
          seen_hashes = [(''engineer 0:'', simhash example_digest ''Engineer 0'' 64)]\<rparr>"
  let ?p0 = "posting ''Engineer 0'' ''0'' None"
  let ?c0 = "posting ''Engineer 0'' ''0'' (Some ''a copy'')"
  note T = exact_copy_is_duplicate_and_dedupe_drops_it
    [of ?p0 ?c0 example_digest example_sha256_hex ?d0 ?d1 five_engineers ?d0]
  have first: "is_duplicate example_digest example_sha256_hex ?d0 ?p0 = Inr (False, ?d1)"
    by (simp add: is_duplicate_new' Deduplicator_init_def posting_exact_key posting_fuzzy_key
        posting_content_hash norm_engineer)
  have same: "company ?p0 = company ?c0 \<and> source_system ?p0 = source_system ?c0
      \<and> source_job_id ?p0 = source_job_id ?c0"
    by (simp add: posting_def)
  have second: "is_duplicate example_digest example_sha256_hex ?d1 ?c0 = Inr (True, ?d1)"
    using T first same by blast
  have ne: "five_engineers \<noteq> []"
    by (simp add: five_engineers_def)
  have dk: "distinct (map get_exact_key five_engineers)"
    by (simp add: five_engineers_def posting_exact_key)
  have df: "distinct (map get_fuzzy_key five_engineers)"
    by (simp add: five_engineers_def posting_fuzzy_key norm_engineer)
  have fresh: "seen_ids ?d0 = {} \<and> seen_hashes ?d0 = []"
    by (simp add: Deduplicator_init_def)
  have ext: "\<forall>j\<in>set five_engineers.
      \<not> (case job_exists_fn ?d0 of None \<Rightarrow> False | Some f \<Rightarrow> f (job_id example_sha256_hex j))"
    by (simp add: Deduplicator_init_def)
  have hd: "hd five_engineers = ?p0"
    by (simp add: five_engineers_def)
  have "dedupe_result example_digest example_sha256_hex ?d0 (five_engineers @ [hd five_engineers])
      = Inr five_engineers"
    using T ne dk df fresh ext by blast
  then have third: "dedupe_result example_digest example_sha256_hex ?d0 (five_engineers @ [?p0])
      = Inr five_engineers"
    by (simp only: hd)
  show ?thesis
    by (rule conjI [OF first conjI [OF second third]])
qed

text \<open>
  C7: for every sequence of \<^verbatim>\<open>is_duplicate\<close> calls, from a state whose fuzzy-key map has
  one entry per key (the empty map of a new Deduplicator in particular), the calls return,
  the map still has one entry per key, and the entry of a key is the content hash of the
  most recently recorded (non-duplicate) job with that key, or the initial entry when the
  calls recorded none. Every call of the sequence, and every call that follows it, answers
  as \<open>single_fingerprint_answer\<close> does: its fuzzy check compares the content hash of the job
  with the single fingerprint stored for its fuzzy key, and not with the fingerprints
  recorded for that key before; the loop over the items of the map comes to that one
  comparison.

  In the example, three postings have the fuzzy key \<^verbatim>\<open>:\<close>. The first has fingerprint 0
  and is recorded. The second has fingerprint 17725063, at similarity 51/64 to 0, below the
  threshold: it is recorded and takes the place of the first. The third has the content of
  the first, and is a duplicate of it when it comes right after it; after the second it is
  compared with 17725063 only, and is not a duplicate.
\<close>

theorem fuzzy_map_keeps_latest_fingerprint:
  "distinct (map fst (seen_hashes d)) \<Longrightarrow>
   \<exists>dups d'. is_duplicate_calls md5_int sha256_hex d jobs = Inr (dups, d')
     \<and> length dups = length jobs
     \<and> distinct (map fst (seen_hashes d'))
     \<and> (\<forall>k. map_of (seen_hashes d') k =
           (case last_recorded md5_int jobs dups k of
              Some h \<Rightarrow> Some h
            | None \<Rightarrow> map_of (seen_hashes d) k))
     \<and> (\<forall>n<length jobs. \<exists>bs dn.
           is_duplicate_calls md5_int sha256_hex d (take n jobs) = Inr (bs, dn)
           \<and> distinct (map fst (seen_hashes dn))
           \<and> is_duplicate md5_int sha256_hex dn (jobs ! n)
               = Inr (single_fingerprint_answer md5_int sha256_hex dn (jobs ! n))
           \<and> dups ! n = fst (single_fingerprint_answer md5_int sha256_hex dn (jobs ! n)))
     \<and> (\<forall>job. is_duplicate md5_int sha256_hex d' job
               = Inr (single_fingerprint_answer md5_int sha256_hex d' job))
     \<and> (\<forall>fuzzy_key content_hash.
           fuzzy_scan (similarity_threshold d') fuzzy_key content_hash (seen_hashes d') =
             (case map_of (seen_hashes d') fuzzy_key of
                None \<Rightarrow> Inr False
              | Some h \<Rightarrow>
                  (case simhash_similarity content_hash h 64 of
                     Inl e \<Rightarrow> Inl e
                   | Inr similarity \<Rightarrow> Inr (similarity_threshold d' \<le> similarity))))"
proof -
  assume dis: "distinct (map fst (seen_hashes d))"
  obtain dups d' where run: "is_duplicate_calls md5_int sha256_hex d jobs = Inr (dups, d')"
    using is_duplicate_calls_total by blast
  note inv = is_duplicate_calls_seen_hashes [OF dis run]
  from inv have dd: "distinct (map fst (seen_hashes d'))" by blast
  have next_call: "\<forall>job. is_duplicate md5_int sha256_hex d' job
               = Inr (single_fingerprint_answer md5_int sha256_hex d' job)"
    using dd by (simp add: is_duplicate_single)
  have each: "\<forall>n<length jobs. \<exists>bs dn.
           is_duplicate_calls md5_int sha256_hex d (take n jobs) = Inr (bs, dn)
           \<and> distinct (map fst (seen_hashes dn))
           \<and> is_duplicate md5_int sha256_hex dn (jobs ! n)
               = Inr (single_fingerprint_answer md5_int sha256_hex dn (jobs ! n))
           \<and> dups ! n = fst (single_fingerprint_answer md5_int sha256_hex dn (jobs ! n))"
    using is_duplicate_calls_nth [OF dis run] by blast
  have len: "length dups = length jobs"
    using run by (rule is_duplicate_calls_length)
  have scan: "\<forall>fuzzy_key content_hash.
           fuzzy_scan (similarity_threshold d') fuzzy_key content_hash (seen_hashes d') =
             (case map_of (seen_hashes d') fuzzy_key of
                None \<Rightarrow> Inr False
              | Some h \<Rightarrow>
                  (case simhash_similarity content_hash h 64 of
                     Inl e \<Rightarrow> Inl e
                   | Inr similarity \<Rightarrow> Inr (similarity_threshold d' \<le> similarity)))"
    using dd fuzzy_scan_single by blast
  from run len inv next_call each scan show ?thesis by blast
qed

theorem fuzzy_map_keeps_latest_fingerprint_witness:
  "distinct (map fst (seen_hashes (Deduplicator_init default_similarity_threshold None)))
   \<and> is_duplicate_calls example_digest example_sha256_hex
         (Deduplicator_init default_similarity_threshold None)
         [posting ''?'' ''1'' None, posting ''?'' ''2'' (Some ''sql''), posting ''?'' ''3'' None]
       = Inr ([False, False, False],
           \<lparr>similarity_threshold = default_similarity_threshold, job_exists_fn = None,
            seen_ids = {''TestCo:greenhouse:3'', ''TestCo:greenhouse:2'', ''TestCo:greenhouse:1''},
            seen_hashes = [('':'', 0)]\<rparr>)
   \<and> is_duplicate_calls example_digest example_sha256_hex
         (Deduplicator_init default_similarity_threshold None)
         [posting ''?'' ''1'' None, posting ''?'' ''2'' (Some ''sql'')]
       = Inr ([False, False],
           \<lparr>similarity_threshold = default_similarity_threshold, job_exists_fn = None,
            seen_ids = {''TestCo:greenhouse:2'', ''TestCo:greenhouse:1''},
            seen_hashes = [('':'', 17725063)]\<rparr>)
   \<and> is_duplicate_calls example_digest example_sha256_hex
         (Deduplicator_init default_similarity_threshold None)
         [posting ''?'' ''1'' None, posting ''?'' ''3'' None]
       = Inr ([False, True],
           \<lparr>similarity_threshold = default_similarity_threshold, job_exists_fn = None,
            seen_ids = {''TestCo:greenhouse:1''},
            seen_hashes = [('':'', 0)]\<rparr>)
   \<and> last_recorded example_digest
         [posting ''?'' ''1'' None, posting ''?'' ''2'' (Some ''sql''), posting ''?'' ''3'' None]
         [False, False, False] '':'' = Some 0
   \<and> (\<forall>job. is_duplicate example_digest example_sha256_hex
           \<lparr>similarity_threshold = default_similarity_threshold, job_exists_fn = None,
            seen_ids = {''TestCo:greenhouse:3'', ''TestCo:greenhouse:2'', ''TestCo:greenhouse:1''},
            seen_hashes = [('':'', 0)]\<rparr> job
         = Inr (single_fingerprint_answer example_digest example_sha256_hex
           \<lparr>similarity_threshold = default_similarity_threshold, job_exists_fn = None,
            seen_ids = {''TestCo:greenhouse:3'', ''TestCo:greenhouse:2'', ''TestCo:greenhouse:1''},
            seen_hashes = [('':'', 0)]\<rparr> job))"
proof -
  let ?d0 = "Deduplicator_init default_similarity_threshold None"
  let ?A = "posting ''?'' ''1'' None"
  let ?B = "posting ''?'' ''2'' (Some ''sql'')"
  let ?A2 = "posting ''?'' ''3'' None"
  let ?d1 = "\<lparr>similarity_threshold = default_similarity_threshold, job_exists_fn = None,
            seen_ids = {''TestCo:greenhouse:1''},
            seen_hashes = [('':'', 0::int)]\<rparr>"
  let ?d2 = "\<lparr>similarity_threshold = default_similarity_threshold, job_exists_fn = None,
            seen_ids = {''TestCo:greenhouse:2'', ''TestCo:greenhouse:1''},
            seen_hashes = [('':'', 17725063::int)]\<rparr>"
  let ?d3 = "\<lparr>similarity_threshold = default_similarity_threshold, job_exists_fn = None,
            seen_ids = {''TestCo:greenhouse:3'', ''TestCo:greenhouse:2'', ''TestCo:greenhouse:1''},
            seen_hashes = [('':'', 0::int)]\<rparr>"
  note ev = is_duplicate_single single_fingerprint_answer_def record_job_def
    posting_exact_key question_fuzzy_key question_content_hash ham_sql hamming_distance_self
    default_similarity_threshold_def
  have h: "distinct (map fst (seen_hashes ?d0))"
    by (simp add: Deduplicator_init_def)
  have s1: "is_duplicate example_digest example_sha256_hex ?d0 ?A = Inr (False, ?d1)"
    by (simp add: ev Deduplicator_init_def)
  have s2: "is_duplicate example_digest example_sha256_hex ?d1 ?B = Inr (False, ?d2)"
    by (simp add: ev)
  have s3: "is_duplicate example_digest example_sha256_hex ?d2 ?A2 = Inr (False, ?d3)"
    by (simp add: ev)
  have s4: "is_duplicate example_digest example_sha256_hex ?d1 ?A2 = Inr (True, ?d1)"
    by (simp add: ev)
  have r3: "is_duplicate_calls example_digest example_sha256_hex ?d0 [?A, ?B, ?A2]
      = Inr ([False, False, False], ?d3)"
    by (simp add: s1 s2 s3)
  have r2: "is_duplicate_calls example_digest example_sha256_hex ?d0 [?A, ?B]
      = Inr ([False, False], ?d2)"
    by (simp add: s1 s2)
  have r1: "is_duplicate_calls example_digest example_sha256_hex ?d0 [?A, ?A2]
      = Inr ([False, True], ?d1)"
    by (simp add: s1 s4)
  from fuzzy_map_keeps_latest_fingerprint [OF h, of example_digest example_sha256_hex "[?A, ?B, ?A2]"]
  obtain dups d' where
    run: "is_duplicate_calls example_digest example_sha256_hex ?d0 [?A, ?B, ?A2] = Inr (dups, d')"
    and m: "\<forall>k. map_of (seen_hashes d') k =
           (case last_recorded example_digest [?A, ?B, ?A2] dups k of
              Some h \<Rightarrow> Some h
            | None \<Rightarrow> map_of (seen_hashes ?d0) k)"
    and nx: "\<forall>job. is_duplicate example_digest example_sha256_hex d' job
               = Inr (single_fingerprint_answer example_digest example_sha256_hex d' job)"
    by blast
  from run r3 have eq: "dups = [False, False, False]" "d' = ?d3"
    by simp_all
  have lr: "last_recorded example_digest [?A, ?B, ?A2] [False, False, False] '':'' = Some 0"
    using m [rule_format, of "'':''"] unfolding eq
    by (simp add: Deduplicator_init_def split: option.splits)
  have nx': "\<forall>job. is_duplicate example_digest example_sha256_hex ?d3 job
               = Inr (single_fingerprint_answer example_digest example_sha256_hex ?d3 job)"
    using nx unfolding eq .
  show ?thesis
    by (intro conjI h r3 r2 r1 lr nx')
qed

section \<open>Properties of the KeywordScorer\<close>

lemma find_Some_ex: "(find P xs \<noteq> None) = (\<exists>x\<in>set xs. P x)"
  by (induction xs) auto

lemma role_contribution_sign:
  "0 \<le> fst (role_contribution ks job)
   \<and> (snd (role_contribution ks job) \<noteq> [] \<longrightarrow> 0 < fst (role_contribution ks job))"
  by (simp add: role_contribution_def Let_def split: option.splits)

lemma must_have_contribution_sign:
  "0 \<le> fst (must_have_contribution ks job)
   \<and> (snd (must_have_contribution ks job) \<noteq> [] \<longrightarrow> 0 < fst (must_have_contribution ks job))"
proof (cases "must_have ks = []")
  case True
  then show ?thesis by (simp add: must_have_contribution_def)
next
  case False
  let ?matched = "filter (\<lambda>p. search p (get_searchable_text job)) (must_have ks)"
  have "0 < real (length ?matched) / real (length (must_have ks)) * (4 / 10)"
    if "?matched \<noteq> []"
  proof -
    from that have "0 < real (length ?matched)" by simp
    moreover from False have "0 < real (length (must_have ks))" by simp
    ultimately show ?thesis by (intro mult_pos_pos divide_pos_pos) simp_all
  qed
  moreover have "0 \<le> real (length ?matched) / real (length (must_have ks)) * (4 / 10)"
    by (intro mult_nonneg_nonneg divide_nonneg_nonneg) simp_all
  ultimately have "0 \<le> real (length ?matched) / real (length (must_have ks)) * (4 / 10)
     \<and> (?matched \<noteq> [] \<longrightarrow> 0 < real (length ?matched) / real (length (must_have ks)) * (4 / 10))"
    by blast
  then show ?thesis
    using False by (simp only: must_have_contribution_def Let_def if_True if_False fst_conv snd_conv
        map_is_Nil_conv simp_thms, blast)
qed

lemma location_contribution_sign:
  "0 \<le> fst (location_contribution ks job)
   \<and> (snd (location_contribution ks job) \<noteq> [] \<longrightarrow> 0 < fst (location_contribution ks job))"
  by (simp add: location_contribution_def Let_def split: option.splits)

lemma remote_contribution_sign:
  "0 \<le> fst (remote_contribution ks job)
   \<and> (snd (remote_contribution ks job) \<noteq> [] \<longrightarrow> 0 < fst (remote_contribution ks job))"
  by (simp add: remote_contribution_def split: option.splits)

lemma keyword_score_excluded:
  "find (\<lambda>p. search p (get_searchable_text job)) (must_not ks) = Some p \<Longrightarrow>
   KeywordScorer_score ks job = (0, [excluded_reason p])"
  by (simp add: KeywordScorer_score_def)

lemma keyword_score_not_excluded:
  assumes "find (\<lambda>p. search p (get_searchable_text job)) (must_not ks) = None"
  shows "0 \<le> fst (KeywordScorer_score ks job) \<and> fst (KeywordScorer_score ks job) \<le> 1
     \<and> (snd (KeywordScorer_score ks job) \<noteq> [] \<longrightarrow> 0 < fst (KeywordScorer_score ks job))"
  using assms role_contribution_sign [of ks job] must_have_contribution_sign [of ks job]
    location_contribution_sign [of ks job] remote_contribution_sign [of ks job]
  by (auto simp: KeywordScorer_score_def Let_def)

lemma find_map: "find P (map f xs) = map_option f (find (\<lambda>x. P (f x)) xs)"
  by (induction xs) auto

lemma must_not_init:
  "find (\<lambda>p. search p text) (must_not (KeywordScorer_init prof)) =
     map_option compile_keyword (find (\<lambda>kw. search (compile_keyword kw) text) (must_not_keywords prof))"
  by (simp add: KeywordScorer_init_def find_map)

lemma keyword_score_sentinel:
  "(fst (KeywordScorer_score ks job) = 0 \<and> snd (KeywordScorer_score ks job) \<noteq> [])
     = (\<exists>p\<in>set (must_not ks). search p (get_searchable_text job))"
proof (cases "find (\<lambda>p. search p (get_searchable_text job)) (must_not ks)")
  case None
  then have "\<not> (\<exists>p\<in>set (must_not ks). search p (get_searchable_text job))"
    using find_Some_ex [of "\<lambda>p. search p (get_searchable_text job)" "must_not ks"] by simp
  moreover have "\<not> (fst (KeywordScorer_score ks job) = 0 \<and> snd (KeywordScorer_score ks job) \<noteq> [])"
    using keyword_score_not_excluded [OF None] by auto
  ultimately show ?thesis by blast
next
  case (Some p)
  then have "\<exists>p\<in>set (must_not ks). search p (get_searchable_text job)"
    using find_Some_ex [of "\<lambda>p. search p (get_searchable_text job)" "must_not ks"] by simp
  moreover have "KeywordScorer_score ks job = (0, [excluded_reason p])"
    using Some by (rule keyword_score_excluded)
  ultimately show ?thesis by simp
qed

lemma score_excluded:
  assumes "find (\<lambda>p. search p (get_searchable_text job)) (must_not (keyword_scorer S)) = Some p"
  shows "Scorer_score S clock st job =
     (\<lparr>scored_job = job, final_score = 0, vector_score = 0, keyword_score = 0,
       recency_score = 0, match_reasons = [excluded_reason p]\<rparr>, st)"
  using keyword_score_excluded [OF assms] by (simp add: Scorer_score_def)

lemma posting_searchable_text: "get_searchable_text (posting t i None) = t"
  by (simp add: get_searchable_text_def posting_def)

lemma search_senior_dev: "search (compile_keyword ''senior'') ''Senior Dev''"
  by code_simp

lemma search_python_intern:
  "\<not> search (compile_keyword ''senior'') ''Python Intern''"
  "\<not> search (compile_keyword ''staff'') ''Python Intern''"
  "search (compile_keyword ''Python'') ''Python Intern''"
  by code_simp+

lemma re_escape_senior: "re_escape ''senior'' = ''senior''"
  by code_simp

lemma must_have_reasons:
  "p \<in> set (must_have ks) \<Longrightarrow> search p (get_searchable_text job) \<Longrightarrow>
   find (\<lambda>p. search p (get_searchable_text job)) (must_not ks) = None \<Longrightarrow>
   snd (KeywordScorer_score ks job) \<noteq> []"
proof -
  assume a: "p \<in> set (must_have ks)" "search p (get_searchable_text job)"
    and n: "find (\<lambda>p. search p (get_searchable_text job)) (must_not ks) = None"
  from a have "filter (\<lambda>p. search p (get_searchable_text job)) (must_have ks) \<noteq> []"
    by (auto simp: filter_empty_conv)
  moreover from a have "must_have ks \<noteq> []" by auto
  ultimately have "snd (must_have_contribution ks job) \<noteq> []"
    by (simp add: must_have_contribution_def Let_def)
  then show ?thesis
    using n by (simp add: KeywordScorer_score_def Let_def)
qed

lemma sample_not_excluded:
  "find (\<lambda>p. search p (get_searchable_text (posting ''Python Intern'' ''1'' None)))
     (must_not (KeywordScorer_init sample_profile)) = None"
  by (simp add: KeywordScorer_init_def sample_profile_def posting_searchable_text
      search_python_intern)

lemma sample_excluded:
  "find (\<lambda>p. search p (get_searchable_text (posting ''Senior Dev'' ''1'' None)))
     (must_not (KeywordScorer_init sample_profile)) = Some (compile_keyword ''senior'')"
  by (simp add: KeywordScorer_init_def sample_profile_def posting_searchable_text
      search_senior_dev)


section \<open>Claims about the KeywordScorer\<close>

text \<open>
  C10: \<^verbatim>\<open>KeywordScorer.score\<close> returns the score 0.0 together with a non-empty list of
  reasons if and only if some must-not pattern matches the searchable text of the job.
  When none matches, a non-empty list of reasons comes with a positive score, because each
  of the four contributions that appends a reason adds a positive amount. So the pair of
  0.0 and a non-empty list is the mark of an exclusion, and of nothing else.
\<close>

theorem keyword_exclusion_sentinel:
  "((fst (KeywordScorer_score ks job) = 0 \<and> snd (KeywordScorer_score ks job) \<noteq> [])
      = (\<exists>p\<in>set (must_not ks). search p (get_searchable_text job)))
   \<and> (\<not> (\<exists>p\<in>set (must_not ks). search p (get_searchable_text job))
        \<and> snd (KeywordScorer_score ks job) \<noteq> []
      \<longrightarrow> 0 < fst (KeywordScorer_score ks job))
   \<and> (snd (role_contribution ks job) \<noteq> [] \<longrightarrow> 0 < fst (role_contribution ks job))
   \<and> (snd (must_have_contribution ks job) \<noteq> [] \<longrightarrow> 0 < fst (must_have_contribution ks job))
   \<and> (snd (location_contribution ks job) \<noteq> [] \<longrightarrow> 0 < fst (location_contribution ks job))
   \<and> (snd (remote_contribution ks job) \<noteq> [] \<longrightarrow> 0 < fst (remote_contribution ks job))"
proof -
  have "0 < fst (KeywordScorer_score ks job)"
    if "\<not> (\<exists>p\<in>set (must_not ks). search p (get_searchable_text job))"
      and "snd (KeywordScorer_score ks job) \<noteq> []"
  proof -
    from that(1) have "find (\<lambda>p. search p (get_searchable_text job)) (must_not ks) = None"
      using find_Some_ex [of "\<lambda>p. search p (get_searchable_text job)" "must_not ks"] by simp
    from keyword_score_not_excluded [OF this] that(2) show ?thesis by blast
  qed
  then show ?thesis
    using keyword_score_sentinel [of ks job] role_contribution_sign [of ks job]
      must_have_contribution_sign [of ks job] location_contribution_sign [of ks job]
      remote_contribution_sign [of ks job]
    by blast
qed

theorem keyword_exclusion_sentinel_witness:
  "fst (KeywordScorer_score (KeywordScorer_init sample_profile) (posting ''Senior Dev'' ''1'' None)) = 0
   \<and> snd (KeywordScorer_score (KeywordScorer_init sample_profile) (posting ''Senior Dev'' ''1'' None)) \<noteq> []
   \<and> \<not> (\<exists>p\<in>set (must_not (KeywordScorer_init sample_profile)).
          search p (get_searchable_text (posting ''Python Intern'' ''1'' None)))
   \<and> snd (KeywordScorer_score (KeywordScorer_init sample_profile) (posting ''Python Intern'' ''1'' None)) \<noteq> []
   \<and> 0 < fst (KeywordScorer_score (KeywordScorer_init sample_profile) (posting ''Python Intern'' ''1'' None))"
proof -
  let ?ks = "KeywordScorer_init sample_profile"
  let ?senior = "posting ''Senior Dev'' ''1'' None"
  let ?intern = "posting ''Python Intern'' ''1'' None"
  have "compile_keyword ''senior'' \<in> set (must_not ?ks)"
    by (simp add: KeywordScorer_init_def sample_profile_def)
  then have ex: "\<exists>p\<in>set (must_not ?ks). search p (get_searchable_text ?senior)"
    using search_senior_dev by (auto simp: posting_searchable_text)
  have a: "fst (KeywordScorer_score ?ks ?senior) = 0 \<and> snd (KeywordScorer_score ?ks ?senior) \<noteq> []"
    using keyword_exclusion_sentinel [of ?ks ?senior] ex by blast
  have nex: "\<not> (\<exists>p\<in>set (must_not ?ks). search p (get_searchable_text ?intern))"
    using sample_not_excluded
      find_Some_ex [of "\<lambda>p. search p (get_searchable_text ?intern)" "must_not ?ks"]
    by simp
  have "compile_keyword ''Python'' \<in> set (must_have ?ks)"
    by (simp add: KeywordScorer_init_def sample_profile_def)
  moreover have "search (compile_keyword ''Python'') (get_searchable_text ?intern)"
    by (simp add: posting_searchable_text search_python_intern)
  ultimately have r: "snd (KeywordScorer_score ?ks ?intern) \<noteq> []"
    using sample_not_excluded by (rule must_have_reasons)
  have "0 < fst (KeywordScorer_score ?ks ?intern)"
    using keyword_exclusion_sentinel [of ?ks ?intern] nex r by blast
  with a nex r show ?thesis by blast
qed

text \<open>
  C1, as stated: the reason of an exclusion is \<^verbatim>\<open>Excluded: contains '<phrase>'\<close> with the
  must-not phrase. The code formats \<^verbatim>\<open>pattern.pattern\<close>, the source text of the compiled
  pattern, so the reason carries the escaped phrase between two \<^verbatim>\<open>\b\<close>: for the phrase
  \<^verbatim>\<open>senior\<close> it is \<^verbatim>\<open>Excluded: contains '\bsenior\b'\<close>.
\<close>

theorem excluded_reason_counterexample:
  "KeywordScorer_score (KeywordScorer_init sample_profile) (posting ''Senior Dev'' ''1'' None)
     = (0, [''Excluded: contains '' @ [CHR 0x27] @ [backslash] @ ''bsenior'' @ [backslash] @ ''b''
              @ [CHR 0x27]])
   \<and> KeywordScorer_score (KeywordScorer_init sample_profile) (posting ''Senior Dev'' ''1'' None)
     \<noteq> (0, [''Excluded: contains '' @ [CHR 0x27] @ ''senior'' @ [CHR 0x27]])"
proof -
  have "KeywordScorer_score (KeywordScorer_init sample_profile) (posting ''Senior Dev'' ''1'' None)
     = (0, [excluded_reason (compile_keyword ''senior'')])"
    using sample_excluded by (rule keyword_score_excluded)
  then show ?thesis
    by (simp add: excluded_reason_def compile_keyword_def re_escape_senior backslash_def)
qed

text \<open>
  C1, amended: when \<open>kw\<close> is the first must-not phrase of the profile whose pattern
  matches the searchable text of the job, \<^verbatim>\<open>KeywordScorer.score\<close> returns 0.0 with the
  single reason \<^verbatim>\<open>Excluded: contains '\b<escaped kw>\b'\<close>, and \<^verbatim>\<open>Scorer.score\<close> returns
  the posting with final, keyword, vector and recency score 0 and that reason alone, for
  every provider and clock, in an unchanged state: the cache is untouched, no \<^verbatim>\<open>embed\<close>
  call is made and the clock is not read.
\<close>

theorem must_not_match_excludes:
  "find (\<lambda>kw. search (compile_keyword kw) (get_searchable_text job)) (must_not_keywords prof)
     = Some kw \<Longrightarrow>
   KeywordScorer_score (KeywordScorer_init prof) job
     = (0, [''Excluded: contains '' @ [CHR 0x27] @ [backslash, CHR ''b''] @ re_escape kw
              @ [backslash, CHR ''b''] @ [CHR 0x27]])
   \<and> Scorer_score (Scorer_init prof provider) clock st job
     = (\<lparr>scored_job = job, final_score = 0, vector_score = 0, keyword_score = 0,
          recency_score = 0,
          match_reasons = [''Excluded: contains '' @ [CHR 0x27] @ [backslash, CHR ''b'']
              @ re_escape kw @ [backslash, CHR ''b''] @ [CHR 0x27]]\<rparr>, st)"
proof -
  assume "find (\<lambda>kw. search (compile_keyword kw) (get_searchable_text job)) (must_not_keywords prof)
     = Some kw"
  then have f: "find (\<lambda>p. search p (get_searchable_text job)) (must_not (KeywordScorer_init prof))
      = Some (compile_keyword kw)"
    by (simp add: must_not_init)
  have r: "excluded_reason (compile_keyword kw)
      = ''Excluded: contains '' @ [CHR 0x27] @ [backslash, CHR ''b''] @ re_escape kw
              @ [backslash, CHR ''b''] @ [CHR 0x27]"
    by (simp add: excluded_reason_def compile_keyword_def)
  have k: "keyword_scorer (Scorer_init prof provider) = KeywordScorer_init prof"
    by (simp add: Scorer_init_def)
  show ?thesis
    using keyword_score_excluded [OF f] score_excluded [of job "Scorer_init prof provider", unfolded k, OF f]
    by (simp only: r)
qed

theorem must_not_match_excludes_witness:
  "find (\<lambda>kw. search (compile_keyword kw) (get_searchable_text (posting ''Senior Dev'' ''1'' None)))
       (must_not_keywords sample_profile) = Some ''senior''
   \<and> KeywordScorer_score (KeywordScorer_init sample_profile) (posting ''Senior Dev'' ''1'' None)
     = (0, [''Excluded: contains '' @ [CHR 0x27] @ [backslash, CHR ''b''] @ re_escape ''senior''
              @ [backslash, CHR ''b''] @ [CHR 0x27]])
   \<and> Scorer_score (Scorer_init sample_profile (Some failing_backend)) still_clock initial_state
        (posting ''Senior Dev'' ''1'' None)
     = (\<lparr>scored_job = posting ''Senior Dev'' ''1'' None, final_score = 0, vector_score = 0,
          keyword_score = 0, recency_score = 0,
          match_reasons = [''Excluded: contains '' @ [CHR 0x27] @ [backslash, CHR ''b'']
              @ re_escape ''senior'' @ [backslash, CHR ''b''] @ [CHR 0x27]]\<rparr>, initial_state)"
proof -
  have f: "find (\<lambda>kw. search (compile_keyword kw) (get_searchable_text (posting ''Senior Dev'' ''1'' None)))
       (must_not_keywords sample_profile) = Some ''senior''"
    by (simp add: sample_profile_def posting_searchable_text search_senior_dev)
  show ?thesis
    by (rule conjI [OF f must_not_match_excludes [OF f]])
qed

section \<open>Properties of the RecencyScorer\<close>

lemma recency_none: "posted_at job = None \<Longrightarrow> RecencyScorer_score m now job = 1 / 2"
  by (simp add: RecencyScorer_score_def)

lemma recency_fresh:
  "posted_at job = Some t \<Longrightarrow> age_in_days now t \<le> 0 \<Longrightarrow> RecencyScorer_score m now job = 1"
  by (simp add: RecencyScorer_score_def)

lemma recency_old:
  "posted_at job = Some t \<Longrightarrow> 0 < age_in_days now t \<Longrightarrow> real_of_int m \<le> age_in_days now t \<Longrightarrow>
   RecencyScorer_score m now job = 0"
  by (simp add: RecencyScorer_score_def)

lemma recency_decay:
  assumes "posted_at job = Some t" "0 < age_in_days now t" "age_in_days now t < real_of_int m"
  shows "RecencyScorer_score m now job = max 0 (min 1 (1 - sqrt (age_in_days now t / real_of_int m)))"
proof -
  have "0 \<le> age_in_days now t / real_of_int m"
    using assms by simp
  then have "(age_in_days now t / real_of_int m) powr (1 / 2) = sqrt (age_in_days now t / real_of_int m)"
    by (rule powr_half_sqrt)
  then show ?thesis
    using assms by (simp add: RecencyScorer_score_def Let_def)
qed

lemma recency_range: "0 \<le> RecencyScorer_score m now job \<and> RecencyScorer_score m now job \<le> 1"
  by (simp add: RecencyScorer_score_def Let_def split: option.splits)

lemma age_nonpositive: "age_in_days now t \<le> 0 \<longleftrightarrow> now \<le> t"
  by (simp add: age_in_days_def divide_le_0_iff)

lemma recency_one_hour:
  assumes "posted_at job = Some t" "now - t = 3600000000"
  shows "9 / 10 < RecencyScorer_score 30 now job"
proof -
  have age: "age_in_days now t = 1 / 24"
    using assms(2) by (simp add: age_in_days_def)
  have "sqrt (1 / 720) \<le> 1 / 12"
    by (rule real_le_lsqrt) (simp_all add: power2_eq_square)
  moreover have "RecencyScorer_score 30 now job = max 0 (min 1 (1 - sqrt (age_in_days now t / real_of_int 30)))"
    using assms(1) by (rule recency_decay) (simp_all add: age)
  ultimately show ?thesis
    by (simp add: age)
qed

lemma recency_25_days:
  assumes "posted_at job = Some t" "now - t = 25 * 86400000000"
  shows "RecencyScorer_score 30 now job < 3 / 10"
proof -
  have age: "age_in_days now t = 25"
    using assms(2) by (simp add: age_in_days_def)
  have "7 / 10 < sqrt (25 / 30)"
    by (rule real_less_rsqrt) (simp add: power2_eq_square)
  moreover have "RecencyScorer_score 30 now job = max 0 (min 1 (1 - sqrt (age_in_days now t / real_of_int 30)))"
    using assms(1) by (rule recency_decay) (simp_all add: age)
  ultimately show ?thesis
    by (simp add: age)
qed


section \<open>Properties of the Scorer\<close>

lemma get_profile_cached:
  "profile_embedding st = Some v \<Longrightarrow> Scorer_get_profile_embedding S st = (Inr v, st)"
  by (simp add: Scorer_get_profile_embedding_def)

lemma get_profile_empty_text:
  "profile_embedding st = None \<Longrightarrow> profile_text S = [] \<Longrightarrow>
   Scorer_get_profile_embedding S st = (Inr [], st\<lparr>profile_embedding := Some []\<rparr>)"
  by (simp add: Scorer_get_profile_embedding_def)

lemma get_profile_raises:
  "profile_embedding st = None \<Longrightarrow> profile_text S \<noteq> [] \<Longrightarrow>
   provider_embed (embedding_provider S) (embed_calls st) [profile_text S] = Inl e \<Longrightarrow>
   Scorer_get_profile_embedding S st =
     (Inl e, st\<lparr>embed_calls := embed_calls st @ [(ProfileText, [profile_text S], False)]\<rparr>)"
  by (simp add: Scorer_get_profile_embedding_def Let_def logged_def)

lemma get_profile_returns:
  "profile_embedding st = None \<Longrightarrow> profile_text S \<noteq> [] \<Longrightarrow>
   provider_embed (embedding_provider S) (embed_calls st) [profile_text S] = Inr embeddings \<Longrightarrow>
   Scorer_get_profile_embedding S st =
     (Inr (case embeddings of [] \<Rightarrow> [] | first # others \<Rightarrow> first),
      st\<lparr>embed_calls := embed_calls st @ [(ProfileText, [profile_text S], True)],
         profile_embedding := Some (case embeddings of [] \<Rightarrow> [] | first # others \<Rightarrow> first)\<rparr>)"
  by (simp add: Scorer_get_profile_embedding_def Let_def logged_def)

lemma get_profile_invariant:
  "cache_invariant st \<Longrightarrow> cache_invariant (snd (Scorer_get_profile_embedding S st))"
  by (auto simp: Scorer_get_profile_embedding_def Let_def logged_def cache_invariant_def
      successful_profile_call_def split: option.splits sum.splits if_splits)

lemma get_profile_keeps_cache:
  "profile_embedding st = Some v \<Longrightarrow>
   profile_embedding (snd (Scorer_get_profile_embedding S st)) = Some v
   \<and> embed_calls (snd (Scorer_get_profile_embedding S st)) = embed_calls st"
  by (simp add: get_profile_cached)

lemma get_profile_clock:
  "clock_reads (snd (Scorer_get_profile_embedding S st)) = clock_reads st"
  by (auto simp: Scorer_get_profile_embedding_def Let_def split: option.splits sum.splits)

lemma get_profile_result_cached:
  "Scorer_get_profile_embedding S st = (Inr v, st1) \<Longrightarrow> profile_embedding st1 = Some v"
  by (auto simp: Scorer_get_profile_embedding_def Let_def split: option.splits sum.splits if_splits)

lemma get_profile_clock_update:
  "Scorer_get_profile_embedding S (st\<lparr>clock_reads := n\<rparr>) =
     (fst (Scorer_get_profile_embedding S st),
      (snd (Scorer_get_profile_embedding S st))\<lparr>clock_reads := n\<rparr>)"
  by (auto simp: Scorer_get_profile_embedding_def Let_def split: option.splits sum.splits)

lemma vector_step_clock_update:
  "vector_step S (st\<lparr>clock_reads := n\<rparr>) job =
     (fst (vector_step S st job), (snd (vector_step S st job))\<lparr>clock_reads := n\<rparr>)"
  by (auto simp: vector_step_def get_profile_clock_update Let_def
      split: prod.splits sum.splits list.splits)

lemma vector_step_invariant:
  "cache_invariant st \<Longrightarrow> cache_invariant (snd (vector_step S st job))"
proof -
  assume a: "cache_invariant st"
  obtain r st1 where g: "Scorer_get_profile_embedding S st = (r, st1)"
    by (cases "Scorer_get_profile_embedding S st")
  have i1: "cache_invariant st1"
    using get_profile_invariant [OF a, of S] g by simp
  have "cache_invariant (st1\<lparr>embed_calls := embed_calls st1 @ [logged JobText ts ans]\<rparr>)" for ts ans
    using i1 by (simp add: cache_invariant_def successful_profile_call_def logged_def)
  then show ?thesis
    using a i1 g
    by (auto simp: vector_step_def Let_def split: sum.splits list.splits)
qed

lemma vector_step_keeps_cache:
  assumes "profile_embedding st = Some v"
  shows "profile_embedding (snd (vector_step S st job)) = Some v
     \<and> filter (\<lambda>c. fst c = ProfileText) (embed_calls (snd (vector_step S st job)))
         = filter (\<lambda>c. fst c = ProfileText) (embed_calls st)"
  using assms
  by (auto simp: vector_step_def get_profile_cached Let_def logged_def split: sum.splits list.splits)

lemma vector_step_neutral_provider:
  "is_NoEmbeddingProvider (embedding_provider S) \<Longrightarrow> vector_step S st job = (1 / 2, st)"
  by (simp add: vector_step_def)

lemma vector_step_profile_error:
  "fst (Scorer_get_profile_embedding S st) = Inl e \<Longrightarrow> fst (vector_step S st job) = 1 / 2"
  by (auto simp: vector_step_def split: prod.splits sum.splits)

lemma vector_step_profile_empty:
  "fst (Scorer_get_profile_embedding S st) = Inr [] \<Longrightarrow> fst (vector_step S st job) = 1 / 2"
  by (auto simp: vector_step_def split: prod.splits sum.splits)

lemma vector_step_job_error:
  "provider_embed (embedding_provider S) (embed_calls (snd (Scorer_get_profile_embedding S st)))
     [get_searchable_text job] = Inl e \<Longrightarrow>
   fst (vector_step S st job) = 1 / 2"
  by (auto simp: vector_step_def Let_def split: prod.splits sum.splits list.splits)

lemma vector_step_range:
  assumes "\<forall>v1 v2 r. provider_similarity (embedding_provider S) v1 v2 = Inr r \<longrightarrow> - 1 \<le> r \<and> r \<le> 1"
  shows "0 \<le> fst (vector_step S st job) \<and> fst (vector_step S st job) \<le> 1"
proof -
  have "0 \<le> (r + 1) / 2 \<and> (r + 1) / 2 \<le> 1"
    if "provider_similarity (embedding_provider S) v1 v2 = Inr r" for v1 v2 r
    using assms that by fastforce
  then show ?thesis
    by (auto simp: vector_step_def Let_def split: prod.splits sum.splits list.splits)
qed

lemma score_excluded_pair:
  assumes "fst (KeywordScorer_score (keyword_scorer S) job) = 0"
    and "snd (KeywordScorer_score (keyword_scorer S) job) \<noteq> []"
  shows "Scorer_score S clock st job =
     (\<lparr>scored_job = job, final_score = 0, vector_score = 0, keyword_score = 0,
       recency_score = 0,
       match_reasons = snd (KeywordScorer_score (keyword_scorer S) job)\<rparr>, st)"
proof -
  obtain k r where kr: "KeywordScorer_score (keyword_scorer S) job = (k, r)"
    by (cases "KeywordScorer_score (keyword_scorer S) job")
  with assms have "k = 0" "r \<noteq> []" by simp_all
  then show ?thesis by (simp add: Scorer_score_def kr)
qed

lemma score_scored_fields:
  assumes "\<not> (fst (KeywordScorer_score (keyword_scorer S) job) = 0
      \<and> snd (KeywordScorer_score (keyword_scorer S) job) \<noteq> [])"
  shows "scored_job (fst (Scorer_score S clock st job)) = job"
    and "keyword_score (fst (Scorer_score S clock st job))
          = fst (KeywordScorer_score (keyword_scorer S) job)"
    and "recency_score (fst (Scorer_score S clock st job))
          = RecencyScorer_score (max_age_days S) (clock (clock_reads st)) job"
    and "vector_score (fst (Scorer_score S clock st job)) = fst (vector_step S st job)"
    and "final_score (fst (Scorer_score S clock st job))
          = vector_weight (profile S) * fst (vector_step S st job)
            + keyword_weight (profile S) * fst (KeywordScorer_score (keyword_scorer S) job)
            + recency_weight (profile S)
                * RecencyScorer_score (max_age_days S) (clock (clock_reads st)) job"
    and "snd (Scorer_score S clock st job) =
          (if posted_at job = None then snd (vector_step S st job)
           else (snd (vector_step S st job))\<lparr>clock_reads := Suc (clock_reads st)\<rparr>)"
proof -
  obtain k r where kr: "KeywordScorer_score (keyword_scorer S) job = (k, r)"
    by (cases "KeywordScorer_score (keyword_scorer S) job")
  with assms have n: "\<not> (k = 0 \<and> r \<noteq> [])" by simp
  show "scored_job (fst (Scorer_score S clock st job)) = job"
    using n by (cases "k = 0") (simp_all add: Scorer_score_def kr Let_def split_beta)
  show "keyword_score (fst (Scorer_score S clock st job))
          = fst (KeywordScorer_score (keyword_scorer S) job)"
    using n by (cases "k = 0") (simp_all add: Scorer_score_def kr Let_def split_beta)
  show "recency_score (fst (Scorer_score S clock st job))
          = RecencyScorer_score (max_age_days S) (clock (clock_reads st)) job"
    using n by (cases "k = 0") (simp_all add: Scorer_score_def kr Let_def split_beta recency_step_def)
  show "vector_score (fst (Scorer_score S clock st job)) = fst (vector_step S st job)"
    using n by (cases "k = 0") (simp_all add: Scorer_score_def kr Let_def split_beta recency_step_def
        vector_step_clock_update)
  show "final_score (fst (Scorer_score S clock st job))
          = vector_weight (profile S) * fst (vector_step S st job)
            + keyword_weight (profile S) * fst (KeywordScorer_score (keyword_scorer S) job)
            + recency_weight (profile S)
                * RecencyScorer_score (max_age_days S) (clock (clock_reads st)) job"
    using n by (cases "k = 0") (simp_all add: Scorer_score_def kr Let_def split_beta recency_step_def
        vector_step_clock_update)
  show "snd (Scorer_score S clock st job) =
          (if posted_at job = None then snd (vector_step S st job)
           else (snd (vector_step S st job))\<lparr>clock_reads := Suc (clock_reads st)\<rparr>)"
    using n by (cases "k = 0") (simp_all add: Scorer_score_def kr Let_def split_beta recency_step_def
        vector_step_clock_update)
qed

lemma cache_invariant_clock: "cache_invariant (st\<lparr>clock_reads := n\<rparr>) = cache_invariant st"
  by (simp add: cache_invariant_def)

lemma score_invariant:
  "cache_invariant st \<Longrightarrow> cache_invariant (snd (Scorer_score S clock st job))"
proof (cases "fst (KeywordScorer_score (keyword_scorer S) job) = 0
      \<and> snd (KeywordScorer_score (keyword_scorer S) job) \<noteq> []")
  case True
  assume "cache_invariant st"
  then show ?thesis using True by (simp add: score_excluded_pair)
next
  case False
  assume "cache_invariant st"
  then have "cache_invariant (snd (vector_step S st job))"
    by (rule vector_step_invariant)
  then show ?thesis
    by (simp add: score_scored_fields(6) [OF False] cache_invariant_clock)
qed

lemma score_keeps_cache:
  assumes "profile_embedding st = Some v"
  shows "profile_embedding (snd (Scorer_score S clock st job)) = Some v
     \<and> filter (\<lambda>c. fst c = ProfileText) (embed_calls (snd (Scorer_score S clock st job)))
         = filter (\<lambda>c. fst c = ProfileText) (embed_calls st)"
proof (cases "fst (KeywordScorer_score (keyword_scorer S) job) = 0
      \<and> snd (KeywordScorer_score (keyword_scorer S) job) \<noteq> []")
  case True
  then show ?thesis using assms by (simp add: score_excluded_pair)
next
  case False
  show ?thesis
    using vector_step_keeps_cache [OF assms, of S job]
    by (simp add: score_scored_fields(6) [OF False])
qed

lemma score_each_invariant:
  "cache_invariant st \<Longrightarrow> cache_invariant (snd (score_each S clock st jobs))"
proof (induction jobs arbitrary: st)
  case Nil
  then show ?case by simp
next
  case (Cons j jobs)
  have "cache_invariant (snd (Scorer_score S clock st j))"
    using Cons.prems by (rule score_invariant)
  then have "cache_invariant (snd (score_each S clock (snd (Scorer_score S clock st j)) jobs))"
    by (rule Cons.IH)
  then show ?case by (simp add: split_beta Let_def)
qed

lemma score_each_keeps_cache:
  "profile_embedding st = Some v \<Longrightarrow>
   profile_embedding (snd (score_each S clock st jobs)) = Some v
   \<and> filter (\<lambda>c. fst c = ProfileText) (embed_calls (snd (score_each S clock st jobs)))
       = filter (\<lambda>c. fst c = ProfileText) (embed_calls st)"
proof (induction jobs arbitrary: st)
  case Nil
  then show ?case by simp
next
  case (Cons j jobs)
  note a = score_keeps_cache [OF Cons.prems, of S clock j]
  from a have "profile_embedding (snd (Scorer_score S clock st j)) = Some v" by blast
  from Cons.IH [OF this] a show ?case by (simp add: split_beta Let_def)
qed

lemma score_each_length: "length (fst (score_each S clock st jobs)) = length jobs"
  by (induction jobs arbitrary: st) (simp_all add: split_beta Let_def)

lemma score_loop_eq:
  "score_loop S clock threshold scored st jobs =
     (scored @ filter (\<lambda>x. final_score x \<ge> threshold) (fst (score_each S clock st jobs)),
      snd (score_each S clock st jobs))"
  by (induction jobs arbitrary: scored st) (simp_all add: split_beta Let_def)

lemma keyword_score_range:
  "0 \<le> fst (KeywordScorer_score ks job) \<and> fst (KeywordScorer_score ks job) \<le> 1"
proof (cases "find (\<lambda>p. search p (get_searchable_text job)) (must_not ks)")
  case None
  then show ?thesis using keyword_score_not_excluded by blast
next
  case (Some p)
  then show ?thesis by (simp add: keyword_score_excluded)
qed

lemma weighted_sum_range:
  fixes a b c x y z :: real
  assumes "0 \<le> a" "0 \<le> b" "0 \<le> c" "a + b + c \<le> 1"
    and "0 \<le> x" "x \<le> 1" "0 \<le> y" "y \<le> 1" "0 \<le> z" "z \<le> 1"
  shows "0 \<le> a * x + b * y + c * z \<and> a * x + b * y + c * z \<le> 1"
proof -
  have "a * x \<le> a" "b * y \<le> b" "c * z \<le> c"
    using assms by (simp_all add: mult_left_le)
  moreover have "0 \<le> a * x" "0 \<le> b * y" "0 \<le> c * z"
    using assms by simp_all
  ultimately show ?thesis using assms(4) by linarith
qed

lemma open_profile_keyword_score:
  "KeywordScorer_score (KeywordScorer_init open_profile) j = (2 / 10, [])"
  by (simp add: KeywordScorer_score_def KeywordScorer_init_def open_profile_def
      role_contribution_def must_have_contribution_def location_contribution_def
      remote_contribution_def Let_def split: option.splits)



lemma search_python_intern_roles:
  "\<not> search (compile_keyword ''Software Engineer Intern'') ''python intern''"
  "\<not> search (compile_keyword ''Backend Intern'') ''python intern''"
  "\<not> search (compile_keyword ''backend'') ''Python Intern''"
  by code_simp+

lemma lower_python_intern: "lower ''Python Intern'' = ''python intern''"
  by code_simp

lemma sample_keyword_score:
  "fst (KeywordScorer_score (KeywordScorer_init sample_profile) (posting ''Python Intern'' ''1'' None))
     = 2 / 10"
proof -
  let ?ks = "KeywordScorer_init sample_profile"
  let ?j = "posting ''Python Intern'' ''1'' None"
  have t: "title ?j = ''Python Intern''" "location ?j = None" "remote_type ?j = UNKNOWN_REMOTE"
    by (simp_all add: posting_def)
  have r: "role_contribution ?ks ?j = (0, [])"
    by (simp add: role_contribution_def KeywordScorer_init_def sample_profile_def t
        lower_python_intern search_python_intern_roles)
  have m: "fst (must_have_contribution ?ks ?j) = 2 / 10"
    by (simp add: must_have_contribution_def KeywordScorer_init_def sample_profile_def
        posting_searchable_text search_python_intern search_python_intern_roles)
  have l: "location_contribution ?ks ?j = (0, [])"
    by (simp add: location_contribution_def t)
  have e: "remote_contribution ?ks ?j = (0, [])"
    by (simp add: remote_contribution_def KeywordScorer_init_def sample_profile_def t)
  show ?thesis
    using sample_not_excluded by (simp add: KeywordScorer_score_def Let_def r m l e)
qed

lemma sample_profile_text:
  "profile_text (Scorer_init sample_profile provider)
     = ''Software Engineer Intern Backend Intern Python backend''"
  by (simp add: profile_text_def Scorer_init_def sample_profile_def)


lemma failing_backend_vector_step:
  assumes "profile_embedding st = None"
  shows "vector_step (Scorer_init sample_profile (Some failing_backend)) st job =
     (1 / 2, st\<lparr>embed_calls := embed_calls st @
        [(ProfileText, [''Software Engineer Intern Backend Intern Python backend''], False)]\<rparr>)"
proof -
  let ?S = "Scorer_init sample_profile (Some failing_backend)"
  have p: "embedding_provider ?S = failing_backend"
    by (simp add: Scorer_init_def)
  have t: "profile_text ?S \<noteq> []"
    by (simp add: sample_profile_text)
  have e: "provider_embed (embedding_provider ?S) (embed_calls st) [profile_text ?S] = Inl ProviderError"
    unfolding p by (simp add: failing_backend_def)
  have nn: "\<not> is_NoEmbeddingProvider (embedding_provider ?S)"
    unfolding p by (simp add: failing_backend_def)
  have "Scorer_get_profile_embedding ?S st =
     (Inl ProviderError, st\<lparr>embed_calls := embed_calls st @ [(ProfileText, [profile_text ?S], False)]\<rparr>)"
    using assms t e by (rule get_profile_raises)
  then show ?thesis
    by (simp add: vector_step_def nn sample_profile_text)
qed

lemma failing_backend_score_state:
  assumes "profile_embedding st = None"
  shows "snd (Scorer_score (Scorer_init sample_profile (Some failing_backend)) clock st
      (posting ''Python Intern'' ''1'' None)) =
     st\<lparr>embed_calls := embed_calls st @
        [(ProfileText, [''Software Engineer Intern Backend Intern Python backend''], False)]\<rparr>"
proof -
  let ?S = "Scorer_init sample_profile (Some failing_backend)"
  let ?j = "posting ''Python Intern'' ''1'' None"
  have ks: "keyword_scorer ?S = KeywordScorer_init sample_profile"
    by (simp add: Scorer_init_def)
  have n: "\<not> (fst (KeywordScorer_score (keyword_scorer ?S) ?j) = 0
      \<and> snd (KeywordScorer_score (keyword_scorer ?S) ?j) \<noteq> [])"
    by (simp add: ks sample_keyword_score)
  have "posted_at ?j = None" by (simp add: posting_def)
  then show ?thesis
    by (simp add: score_scored_fields(6) [OF n] failing_backend_vector_step [OF assms])
qed


lemma score_profile_embed_raises:
  assumes nex: "\<not> (\<exists>p\<in>set (must_not (keyword_scorer S)). search p (get_searchable_text job))"
    and nn: "\<not> is_NoEmbeddingProvider (embedding_provider S)"
    and c: "profile_embedding st = None"
    and t: "profile_text S \<noteq> []"
    and e: "provider_embed (embedding_provider S) (embed_calls st) [profile_text S] = Inl e"
  shows "profile_embedding (snd (Scorer_score S clock st job)) = None"
    and "embed_calls (snd (Scorer_score S clock st job))
          = embed_calls st @ [(ProfileText, [profile_text S], False)]"
proof -
  have n: "\<not> (fst (KeywordScorer_score (keyword_scorer S) job) = 0
      \<and> snd (KeywordScorer_score (keyword_scorer S) job) \<noteq> [])"
    using nex keyword_score_sentinel [of "keyword_scorer S" job] by simp
  have g: "Scorer_get_profile_embedding S st =
     (Inl e, st\<lparr>embed_calls := embed_calls st @ [(ProfileText, [profile_text S], False)]\<rparr>)"
    using c t e by (rule get_profile_raises)
  have v: "snd (vector_step S st job)
      = st\<lparr>embed_calls := embed_calls st @ [(ProfileText, [profile_text S], False)]\<rparr>"
    by (simp add: vector_step_def nn g)
  show "profile_embedding (snd (Scorer_score S clock st job)) = None"
    by (simp add: score_scored_fields(6) [OF n] v c)
  show "embed_calls (snd (Scorer_score S clock st job))
          = embed_calls st @ [(ProfileText, [profile_text S], False)]"
    by (simp add: score_scored_fields(6) [OF n] v)
qed

lemma score_each_profile_embed_raises:
  assumes nn: "\<not> is_NoEmbeddingProvider (embedding_provider S)"
    and t: "profile_text S \<noteq> []"
    and e: "\<forall>history. \<exists>e. provider_embed (embedding_provider S) history [profile_text S] = Inl e"
  shows "(\<forall>j\<in>set jobs. \<not> (\<exists>p\<in>set (must_not (keyword_scorer S)). search p (get_searchable_text j)))
     \<Longrightarrow> profile_embedding st = None
     \<Longrightarrow> profile_embedding (snd (score_each S clock st jobs)) = None
       \<and> embed_calls (snd (score_each S clock st jobs))
           = embed_calls st @ replicate (length jobs) (ProfileText, [profile_text S], False)"
proof (induction jobs arbitrary: st)
  case Nil
  then show ?case by simp
next
  case (Cons j jobs)
  from Cons.prems(1)
  have nex: "\<not> (\<exists>p\<in>set (must_not (keyword_scorer S)). search p (get_searchable_text j))"
    by simp
  obtain e' where e': "provider_embed (embedding_provider S) (embed_calls st) [profile_text S] = Inl e'"
    using e by blast
  note one = score_profile_embed_raises [OF nex nn Cons.prems(2) t e', of clock]
  have rest: "\<forall>j\<in>set jobs. \<not> (\<exists>p\<in>set (must_not (keyword_scorer S)). search p (get_searchable_text j))"
    using Cons.prems(1) by simp
  note ih = Cons.IH [OF rest one(1)]
  show ?case
    using ih by (simp add: split_beta one(2) replicate_app_Cons_same)
qed

lemma python_intern_not_excluded:
  "\<not> (\<exists>p\<in>set (must_not (keyword_scorer (Scorer_init sample_profile provider))).
        search p (get_searchable_text (posting ''Python Intern'' i None)))"
  by (simp add: Scorer_init_def KeywordScorer_init_def sample_profile_def posting_searchable_text
      search_python_intern)


lemma sort_reverse_sorted: "sorted_wrt (\<lambda>a b. f a \<ge> f b) (sort_reverse f xs)"
proof -
  have "sorted (map f (sort_key f (rev xs)))" by (rule sorted_sort_key)
  then have "sorted_wrt (\<lambda>a b. f a \<le> f b) (sort_key f (rev xs))"
    by (simp add: sorted_wrt_map)
  then show ?thesis
    by (simp add: sort_reverse_def sorted_wrt_rev)
qed

lemma sort_reverse_stable:
  "filter (\<lambda>x. f x = k) (sort_reverse f xs) = filter (\<lambda>x. f x = k) xs"
proof -
  have "filter (\<lambda>x. f x = k) (sort_reverse f xs)
      = rev (filter (\<lambda>x. f x = k) (sort_key f (rev xs)))"
    by (simp add: sort_reverse_def rev_filter)
  also have "\<dots> = rev (filter (\<lambda>x. f x = k) (rev xs))"
    by (simp only: sort_key_stable)
  also have "\<dots> = filter (\<lambda>x. f x = k) xs"
    by (simp add: rev_filter)
  finally show ?thesis .
qed

lemma sort_reverse_set: "set (sort_reverse f xs) = set xs"
  by (simp add: sort_reverse_def)

lemma sort_reverse_length: "length (sort_reverse f xs) = length xs"
  by (simp add: sort_reverse_def)

lemma score_batch_eq:
  "Scorer_score_batch S clock st jobs min_score =
     (sort_reverse final_score
        (filter (\<lambda>x. final_score x \<ge> (case min_score of Some m \<Rightarrow> m
                                          | None \<Rightarrow> min_score_threshold (profile S)))
           (fst (score_each S clock st jobs))),
      snd (score_each S clock st jobs))"
  by (simp add: Scorer_score_batch_def score_loop_eq Let_def)


lemma sort_reverse_single: "sort_reverse f [x] = [x]"
  by (simp add: sort_reverse_def)


section \<open>Claims about the RecencyScorer\<close>

text \<open>
  C6: with \<^verbatim>\<open>max_age_days = 30\<close>, \<^verbatim>\<open>RecencyScorer.score\<close> is 0.5 for a posting without
  \<^verbatim>\<open>posted_at\<close>, 1.0 when the age in days is not positive (the posting time is now or in
  the future), 0.0 when the age is 30 days or more, and otherwise one minus the square root
  of the age over 30, clamped to the unit interval; a posting one hour old scores above
  0.9 and a posting 25 days old scores below 0.3.
\<close>

theorem recency_score_cases:
  "(posted_at job = None \<longrightarrow> RecencyScorer_score 30 now job = 1 / 2)
   \<and> (posted_at job = Some t \<and> age_in_days now t \<le> 0 \<longrightarrow> RecencyScorer_score 30 now job = 1)
   \<and> (posted_at job = Some t \<and> 30 \<le> age_in_days now t \<longrightarrow> RecencyScorer_score 30 now job = 0)
   \<and> (posted_at job = Some t \<and> 0 < age_in_days now t \<and> age_in_days now t < 30
        \<longrightarrow> RecencyScorer_score 30 now job = max 0 (min 1 (1 - sqrt (age_in_days now t / 30))))
   \<and> (posted_at job = Some t \<and> now - t = 3600000000 \<longrightarrow> 9 / 10 < RecencyScorer_score 30 now job)
   \<and> (posted_at job = Some t \<and> now - t = 25 * 86400000000
        \<longrightarrow> RecencyScorer_score 30 now job < 3 / 10)
   \<and> (age_in_days now t \<le> 0 \<longleftrightarrow> now \<le> t)"
proof -
  have "RecencyScorer_score 30 now job = 0" if "posted_at job = Some t" "30 \<le> age_in_days now t"
    using that recency_old [of job t now 30] by simp
  moreover have "RecencyScorer_score 30 now job = max 0 (min 1 (1 - sqrt (age_in_days now t / 30)))"
    if "posted_at job = Some t" "0 < age_in_days now t" "age_in_days now t < 30"
    using that recency_decay [of job t now 30] by simp
  ultimately show ?thesis
    using recency_none [of job 30 now] recency_fresh [of job t now 30]
      recency_one_hour [of job t now] recency_25_days [of job t now] age_nonpositive [of now t]
    by blast
qed

theorem recency_score_cases_witness:
  "RecencyScorer_score 30 3600000000 (posting ''Engineer'' ''123'' None) = 1 / 2
   \<and> RecencyScorer_score 30 0 ((posting ''Engineer'' ''123'' None)\<lparr>posted_at := Some 0\<rparr>) = 1
   \<and> RecencyScorer_score 30 (30 * 86400000000)
        ((posting ''Engineer'' ''123'' None)\<lparr>posted_at := Some 0\<rparr>) = 0
   \<and> 9 / 10 < RecencyScorer_score 30 3600000000
        ((posting ''Engineer'' ''123'' None)\<lparr>posted_at := Some 0\<rparr>)
   \<and> RecencyScorer_score 30 (25 * 86400000000)
        ((posting ''Engineer'' ''123'' None)\<lparr>posted_at := Some 0\<rparr>) < 3 / 10
   \<and> RecencyScorer_score 30 (15 * 86400000000)
        ((posting ''Engineer'' ''123'' None)\<lparr>posted_at := Some 0\<rparr>)
       = max 0 (min 1 (1 - sqrt (15 / 30)))"
proof -
  let ?none = "posting ''Engineer'' ''123'' None"
  let ?job = "(posting ''Engineer'' ''123'' None)\<lparr>posted_at := Some 0\<rparr>"
  have n: "posted_at ?none = None" by (simp add: posting_def)
  have p: "posted_at ?job = Some 0" by simp
  have c1: "RecencyScorer_score 30 3600000000 ?none = 1 / 2"
    using recency_score_cases [of ?none 3600000000 0] n by blast
  have a2: "age_in_days 0 0 \<le> 0" by (simp add: age_in_days_def)
  have c2: "RecencyScorer_score 30 0 ?job = 1"
    using recency_score_cases [of ?job 0 0] p a2 by blast
  have a3: "30 \<le> age_in_days (30 * 86400000000) 0" by (simp add: age_in_days_def)
  have c3: "RecencyScorer_score 30 (30 * 86400000000) ?job = 0"
    using recency_score_cases [of ?job "30 * 86400000000" 0] p a3 by blast
  have a4: "(3600000000::int) - 0 = 3600000000" by simp
  have c4: "9 / 10 < RecencyScorer_score 30 3600000000 ?job"
    using recency_score_cases [of ?job 3600000000 0] p a4 by blast
  have a5: "(25 * 86400000000::int) - 0 = 25 * 86400000000" by simp
  have c5: "RecencyScorer_score 30 (25 * 86400000000) ?job < 3 / 10"
    using recency_score_cases [of ?job "25 * 86400000000" 0] p a5 by blast
  have a6: "age_in_days (15 * 86400000000) 0 = 15" by (simp add: age_in_days_def)
  have "RecencyScorer_score 30 (15 * 86400000000) ?job
      = max 0 (min 1 (1 - sqrt (age_in_days (15 * 86400000000) 0 / 30)))"
    using recency_score_cases [of ?job "15 * 86400000000" 0] p a6 by simp
  then have c6: "RecencyScorer_score 30 (15 * 86400000000) ?job = max 0 (min 1 (1 - sqrt (15 / 30)))"
    by (simp only: a6)
  show ?thesis
    by (intro conjI c1 c2 c3 c4 c5 c6)
qed

section \<open>Claims about the Scorer\<close>

text \<open>
  C2: \<^verbatim>\<open>score_batch\<close> returns the scored postings whose final score reaches the threshold
  (the \<^verbatim>\<open>min_score\<close> passed, or the threshold of the profile when none is passed),
  sorted by final score in descending order; the sort is stable: the postings with one
  final score keep the order they were scored in, which is the order of the jobs.
\<close>

theorem score_batch_sorted_stable:
  "sorted_wrt (\<lambda>a b. final_score a \<ge> final_score b)
      (fst (Scorer_score_batch S clock st jobs min_score))
   \<and> set (fst (Scorer_score_batch S clock st jobs min_score))
       = {x \<in> set (fst (score_each S clock st jobs)).
            final_score x \<ge> (case min_score of Some m \<Rightarrow> m
                              | None \<Rightarrow> min_score_threshold (profile S))}
   \<and> length (fst (Scorer_score_batch S clock st jobs min_score))
       = length (filter (\<lambda>x. final_score x \<ge> (case min_score of Some m \<Rightarrow> m
                                          | None \<Rightarrow> min_score_threshold (profile S)))
           (fst (score_each S clock st jobs)))
   \<and> (\<forall>k. filter (\<lambda>x. final_score x = k) (fst (Scorer_score_batch S clock st jobs min_score))
          = filter (\<lambda>x. final_score x = k)
              (filter (\<lambda>x. final_score x \<ge> (case min_score of Some m \<Rightarrow> m
                                          | None \<Rightarrow> min_score_threshold (profile S)))
                 (fst (score_each S clock st jobs))))
   \<and> map scored_job (fst (score_each S clock st jobs)) = jobs
   \<and> snd (Scorer_score_batch S clock st jobs min_score) = snd (score_each S clock st jobs)"
proof -
  have "scored_job (fst (Scorer_score S' clock' st' j)) = j" for S' clock' st' j
    by (simp add: Scorer_score_def Let_def split_beta)
  then have "map scored_job (fst (score_each S clock st jobs)) = jobs"
    by (induction jobs arbitrary: st) (simp_all add: split_beta Let_def)
  then show ?thesis
    by (simp add: score_batch_eq sort_reverse_sorted sort_reverse_stable sort_reverse_set
        sort_reverse_length)
qed

theorem score_batch_sorted_stable_witness:
  "map scored_job (fst (Scorer_score_batch (Scorer_init sample_profile None) still_clock
      initial_state [posting ''Python Intern'' ''1'' None, posting ''Senior Dev'' ''2'' None]
      (Some (1 / 10))))
     = [posting ''Python Intern'' ''1'' None]
   \<and> sorted_wrt (\<lambda>a b. final_score a \<ge> final_score b)
      (fst (Scorer_score_batch (Scorer_init sample_profile None) still_clock
      initial_state [posting ''Python Intern'' ''1'' None, posting ''Senior Dev'' ''2'' None]
      (Some (1 / 10))))
   \<and> length (fst (Scorer_score_batch (Scorer_init sample_profile None) still_clock
      initial_state [posting ''Python Intern'' ''1'' None, posting ''Senior Dev'' ''2'' None]
      (Some (1 / 10)))) = 1"
proof -
  let ?S = "Scorer_init sample_profile None"
  let ?intern = "posting ''Python Intern'' ''1'' None"
  let ?senior = "posting ''Senior Dev'' ''2'' None"
  note T = score_batch_sorted_stable [of ?S still_clock initial_state "[?intern, ?senior]"
      "Some (1 / 10)"]
  have ks: "keyword_scorer ?S = KeywordScorer_init sample_profile"
    by (simp add: Scorer_init_def)
  have n: "\<not> (fst (KeywordScorer_score (keyword_scorer ?S) ?intern) = 0
      \<and> snd (KeywordScorer_score (keyword_scorer ?S) ?intern) \<noteq> [])"
    by (simp add: ks sample_keyword_score)
  have v: "vector_step ?S st ?intern = (1 / 2, st)" for st
    by (rule vector_step_neutral_provider) (simp add: Scorer_init_def)
  have r: "RecencyScorer_score (max_age_days ?S) (still_clock (clock_reads st)) ?intern = 1 / 2" for st
    by (rule recency_none) (simp add: posting_def)
  have w: "vector_weight (profile ?S) = 55 / 100" "keyword_weight (profile ?S) = 30 / 100"
    "recency_weight (profile ?S) = 15 / 100"
    by (simp_all add: Scorer_init_def sample_profile_def)
  have f1: "final_score (fst (Scorer_score ?S still_clock st ?intern)) = 41 / 100" for st
    by (simp add: score_scored_fields(5) [OF n] v r w ks sample_keyword_score)
  have j1: "scored_job (fst (Scorer_score ?S still_clock st ?intern)) = ?intern" for st
    by (rule score_scored_fields(1) [OF n])
  have "find (\<lambda>p. search p (get_searchable_text ?senior)) (must_not (keyword_scorer ?S))
      = Some (compile_keyword ''senior'')"
    unfolding ks
    by (simp add: KeywordScorer_init_def sample_profile_def posting_searchable_text
        search_senior_dev)
  then have f2: "final_score (fst (Scorer_score ?S still_clock st ?senior)) = 0" for st
    by (simp add: score_excluded)
  have c1: "map scored_job (fst (Scorer_score_batch ?S still_clock initial_state
      [?intern, ?senior] (Some (1 / 10)))) = [?intern]"
    by (simp add: score_batch_eq split_beta Let_def f1 f2 j1 sort_reverse_single)
  have c2: "sorted_wrt (\<lambda>a b. final_score a \<ge> final_score b)
      (fst (Scorer_score_batch ?S still_clock initial_state [?intern, ?senior] (Some (1 / 10))))"
    using T by blast
  have "length (map scored_job (fst (Scorer_score_batch ?S still_clock initial_state
      [?intern, ?senior] (Some (1 / 10))))) = 1"
    by (simp only: c1) simp
  then have c3: "length (fst (Scorer_score_batch ?S still_clock initial_state
      [?intern, ?senior] (Some (1 / 10)))) = 1"
    by simp
  show ?thesis
    by (intro conjI c1 c2 c3)
qed

text \<open>
  C3, as stated: every score of a scored posting, the final score included, lies between
  0 and 1. The weights of a profile are not constrained, and with the weights 1, 1, 1 a
  posting without \<^verbatim>\<open>posted_at\<close> gets the final score 0.5 + 0.2 + 0.5 = 1.2.
\<close>

theorem final_score_above_one_counterexample:
  "final_score (fst (Scorer_score (Scorer_init open_profile None) still_clock initial_state
      (posting ''Engineer'' ''1'' None))) = 12 / 10
   \<and> \<not> final_score (fst (Scorer_score (Scorer_init open_profile None) still_clock initial_state
      (posting ''Engineer'' ''1'' None))) \<le> 1"
proof -
  let ?S = "Scorer_init open_profile None"
  let ?j = "posting ''Engineer'' ''1'' None"
  have k: "KeywordScorer_score (keyword_scorer ?S) ?j = (2 / 10, [])"
    by (simp add: Scorer_init_def open_profile_keyword_score)
  then have n: "\<not> (fst (KeywordScorer_score (keyword_scorer ?S) ?j) = 0
      \<and> snd (KeywordScorer_score (keyword_scorer ?S) ?j) \<noteq> [])"
    by simp
  have v: "fst (vector_step ?S initial_state ?j) = 1 / 2"
    by (simp add: vector_step_neutral_provider Scorer_init_def)
  have r: "RecencyScorer_score (max_age_days ?S) (still_clock (clock_reads initial_state)) ?j = 1 / 2"
    by (rule recency_none) (simp add: posting_def)
  have w: "vector_weight (profile ?S) = 1" "keyword_weight (profile ?S) = 1"
    "recency_weight (profile ?S) = 1"
    by (simp_all add: Scorer_init_def open_profile_def)
  have "final_score (fst (Scorer_score ?S still_clock initial_state ?j)) = 12 / 10"
    by (simp add: score_scored_fields(5) [OF n] v r w k)
  then show ?thesis by simp
qed

text \<open>
  C3, amended: the keyword score and the recency score of every scored posting lie between
  0 and 1, for every profile, provider and posting; the vector score does when the
  similarity of the provider answers within -1 and 1; the final score does when moreover
  the three weights are not negative and their sum is at most 1; and a posting that a
  must-not pattern excludes has all four scores 0.
\<close>

theorem scores_in_unit_interval:
  "0 \<le> keyword_score (fst (Scorer_score S clock st job))
   \<and> keyword_score (fst (Scorer_score S clock st job)) \<le> 1
   \<and> 0 \<le> recency_score (fst (Scorer_score S clock st job))
   \<and> recency_score (fst (Scorer_score S clock st job)) \<le> 1
   \<and> ((\<forall>v1 v2 r. provider_similarity (embedding_provider S) v1 v2 = Inr r
                   \<longrightarrow> - 1 \<le> r \<and> r \<le> 1)
        \<longrightarrow> 0 \<le> vector_score (fst (Scorer_score S clock st job))
          \<and> vector_score (fst (Scorer_score S clock st job)) \<le> 1)
   \<and> ((\<forall>v1 v2 r. provider_similarity (embedding_provider S) v1 v2 = Inr r
                   \<longrightarrow> - 1 \<le> r \<and> r \<le> 1)
        \<and> 0 \<le> vector_weight (profile S) \<and> 0 \<le> keyword_weight (profile S)
        \<and> 0 \<le> recency_weight (profile S)
        \<and> vector_weight (profile S) + keyword_weight (profile S) + recency_weight (profile S) \<le> 1
        \<longrightarrow> 0 \<le> final_score (fst (Scorer_score S clock st job))
          \<and> final_score (fst (Scorer_score S clock st job)) \<le> 1)
   \<and> ((\<exists>p\<in>set (must_not (keyword_scorer S)). search p (get_searchable_text job))
        \<longrightarrow> final_score (fst (Scorer_score S clock st job)) = 0
          \<and> keyword_score (fst (Scorer_score S clock st job)) = 0
          \<and> vector_score (fst (Scorer_score S clock st job)) = 0
          \<and> recency_score (fst (Scorer_score S clock st job)) = 0)"
proof (cases "fst (KeywordScorer_score (keyword_scorer S) job) = 0
      \<and> snd (KeywordScorer_score (keyword_scorer S) job) \<noteq> []")
  case True
  then show ?thesis by (simp add: score_excluded_pair)
next
  case False
  then have nex: "\<not> (\<exists>p\<in>set (must_not (keyword_scorer S)). search p (get_searchable_text job))"
    using keyword_score_sentinel [of "keyword_scorer S" job] by simp
  note f = score_scored_fields [OF False, of clock st]
  have k: "0 \<le> fst (KeywordScorer_score (keyword_scorer S) job)
      \<and> fst (KeywordScorer_score (keyword_scorer S) job) \<le> 1"
    by (rule keyword_score_range)
  have r: "0 \<le> RecencyScorer_score (max_age_days S) (clock (clock_reads st)) job
      \<and> RecencyScorer_score (max_age_days S) (clock (clock_reads st)) job \<le> 1"
    by (rule recency_range)
  have v: "0 \<le> fst (vector_step S st job) \<and> fst (vector_step S st job) \<le> 1"
    if "\<forall>v1 v2 r. provider_similarity (embedding_provider S) v1 v2 = Inr r \<longrightarrow> - 1 \<le> r \<and> r \<le> 1"
    using that by (rule vector_step_range)
  have fin: "0 \<le> final_score (fst (Scorer_score S clock st job))
      \<and> final_score (fst (Scorer_score S clock st job)) \<le> 1"
    if "\<forall>v1 v2 r. provider_similarity (embedding_provider S) v1 v2 = Inr r \<longrightarrow> - 1 \<le> r \<and> r \<le> 1"
      and "0 \<le> vector_weight (profile S)" "0 \<le> keyword_weight (profile S)"
      "0 \<le> recency_weight (profile S)"
      "vector_weight (profile S) + keyword_weight (profile S) + recency_weight (profile S) \<le> 1"
    unfolding f(5) using that(2-5) v [OF that(1)] k r by (intro weighted_sum_range) simp_all
  have c1: "0 \<le> keyword_score (fst (Scorer_score S clock st job))
      \<and> keyword_score (fst (Scorer_score S clock st job)) \<le> 1"
    using k by (simp add: f(2))
  have c2: "0 \<le> recency_score (fst (Scorer_score S clock st job))
      \<and> recency_score (fst (Scorer_score S clock st job)) \<le> 1"
    using r by (simp add: f(3))
  have c3: "(\<forall>v1 v2 r. provider_similarity (embedding_provider S) v1 v2 = Inr r
                   \<longrightarrow> - 1 \<le> r \<and> r \<le> 1)
        \<longrightarrow> 0 \<le> vector_score (fst (Scorer_score S clock st job))
          \<and> vector_score (fst (Scorer_score S clock st job)) \<le> 1"
    using v by (simp add: f(4))
  from c1 c2 c3 fin nex show ?thesis
    by blast
qed

theorem scores_in_unit_interval_witness:
  "0 \<le> vector_weight (profile (Scorer_init sample_profile None))
   \<and> 0 \<le> keyword_weight (profile (Scorer_init sample_profile None))
   \<and> 0 \<le> recency_weight (profile (Scorer_init sample_profile None))
   \<and> vector_weight (profile (Scorer_init sample_profile None))
       + keyword_weight (profile (Scorer_init sample_profile None))
       + recency_weight (profile (Scorer_init sample_profile None)) \<le> 1
   \<and> 0 \<le> final_score (fst (Scorer_score (Scorer_init sample_profile None) still_clock
        initial_state (posting ''Python Intern'' ''1'' None)))
   \<and> final_score (fst (Scorer_score (Scorer_init sample_profile None) still_clock
        initial_state (posting ''Python Intern'' ''1'' None))) \<le> 1
   \<and> 0 \<le> vector_score (fst (Scorer_score (Scorer_init sample_profile None) still_clock
        initial_state (posting ''Python Intern'' ''1'' None)))
   \<and> vector_score (fst (Scorer_score (Scorer_init sample_profile None) still_clock
        initial_state (posting ''Python Intern'' ''1'' None))) \<le> 1
   \<and> final_score (fst (Scorer_score (Scorer_init sample_profile None) still_clock
        initial_state (posting ''Senior Dev'' ''1'' None))) = 0
   \<and> 0 \<le> keyword_score (fst (Scorer_score (Scorer_init open_profile None) still_clock
        initial_state (posting ''Engineer'' ''1'' None)))
   \<and> keyword_score (fst (Scorer_score (Scorer_init open_profile None) still_clock
        initial_state (posting ''Engineer'' ''1'' None))) \<le> 1
   \<and> 0 \<le> recency_score (fst (Scorer_score (Scorer_init open_profile None) still_clock
        initial_state (posting ''Engineer'' ''1'' None)))
   \<and> recency_score (fst (Scorer_score (Scorer_init open_profile None) still_clock
        initial_state (posting ''Engineer'' ''1'' None))) \<le> 1"
proof -
  let ?S = "Scorer_init sample_profile None"
  let ?O = "Scorer_init open_profile None"
  have w: "0 \<le> vector_weight (profile ?S)" "0 \<le> keyword_weight (profile ?S)"
    "0 \<le> recency_weight (profile ?S)"
    "vector_weight (profile ?S) + keyword_weight (profile ?S) + recency_weight (profile ?S) \<le> 1"
    by (simp_all add: Scorer_init_def sample_profile_def)
  have b: "\<forall>v1 v2 r. provider_similarity (embedding_provider ?S) v1 v2 = Inr r \<longrightarrow> - 1 \<le> r \<and> r \<le> 1"
    by (simp add: Scorer_init_def)
  note T = scores_in_unit_interval [of ?S still_clock initial_state]
  have ex: "\<exists>p\<in>set (must_not (keyword_scorer ?S)).
      search p (get_searchable_text (posting ''Senior Dev'' ''1'' None))"
    using sample_excluded find_Some_ex
      [of "\<lambda>p. search p (get_searchable_text (posting ''Senior Dev'' ''1'' None))"
        "must_not (KeywordScorer_init sample_profile)"]
    by (simp add: Scorer_init_def)
  have c1: "0 \<le> final_score (fst (Scorer_score ?S still_clock initial_state
        (posting ''Python Intern'' ''1'' None)))"
    using T [of "posting ''Python Intern'' ''1'' None"] w b by blast
  have c2: "final_score (fst (Scorer_score ?S still_clock initial_state
        (posting ''Python Intern'' ''1'' None))) \<le> 1"
    using T [of "posting ''Python Intern'' ''1'' None"] w b by blast
  have c3: "0 \<le> vector_score (fst (Scorer_score ?S still_clock initial_state
        (posting ''Python Intern'' ''1'' None)))"
    using T [of "posting ''Python Intern'' ''1'' None"] b by blast
  have c4: "vector_score (fst (Scorer_score ?S still_clock initial_state
        (posting ''Python Intern'' ''1'' None))) \<le> 1"
    using T [of "posting ''Python Intern'' ''1'' None"] b by blast
  have c5: "final_score (fst (Scorer_score ?S still_clock initial_state
        (posting ''Senior Dev'' ''1'' None))) = 0"
    using T [of "posting ''Senior Dev'' ''1'' None"] ex by blast
  note U = scores_in_unit_interval [of ?O still_clock initial_state "posting ''Engineer'' ''1'' None"]
  have c6: "0 \<le> keyword_score (fst (Scorer_score ?O still_clock initial_state
        (posting ''Engineer'' ''1'' None)))"
    using U by blast
  have c7: "keyword_score (fst (Scorer_score ?O still_clock initial_state
        (posting ''Engineer'' ''1'' None))) \<le> 1"
    using U by blast
  have c8: "0 \<le> recency_score (fst (Scorer_score ?O still_clock initial_state
        (posting ''Engineer'' ''1'' None)))"
    using U by blast
  have c9: "recency_score (fst (Scorer_score ?O still_clock initial_state
        (posting ''Engineer'' ''1'' None))) \<le> 1"
    using U by blast
  show ?thesis
    by (intro conjI w c1 c2 c3 c4 c5 c6 c7 c8 c9)
qed

text \<open>
  C5: for a job that no must-not pattern excludes, the vector score is exactly 0.5 when
  the provider is the neutral one, when \<^verbatim>\<open>embed\<close> raises (on the profile text or on the
  text of the job), or when the profile embedding is empty (empty profile text, empty
  answer of \<^verbatim>\<open>embed\<close>, empty first vector, or an empty cached value); the job is scored
  all the same, with the final score computed from the vector score 0.5, and a batch
  yields one scored posting per job whatever the provider does.
\<close>

theorem neutral_vector_score:
  assumes "\<not> (\<exists>p\<in>set (must_not (keyword_scorer S)). search p (get_searchable_text job))"
    and "is_NoEmbeddingProvider (embedding_provider S)
      \<or> (profile_embedding st = None \<and> profile_text S \<noteq> []
          \<and> (\<exists>e. provider_embed (embedding_provider S) (embed_calls st) [profile_text S] = Inl e))
      \<or> (\<exists>e. provider_embed (embedding_provider S)
                (embed_calls (snd (Scorer_get_profile_embedding S st)))
                [get_searchable_text job] = Inl e)
      \<or> (profile_embedding st = None \<and> profile_text S = [])
      \<or> (profile_embedding st = None \<and> profile_text S \<noteq> []
          \<and> provider_embed (embedding_provider S) (embed_calls st) [profile_text S] = Inr [])
      \<or> (profile_embedding st = None \<and> profile_text S \<noteq> []
          \<and> (\<exists>others. provider_embed (embedding_provider S) (embed_calls st) [profile_text S]
                = Inr ([] # others)))
      \<or> profile_embedding st = Some []"
  shows "vector_score (fst (Scorer_score S clock st job)) = 1 / 2
     \<and> final_score (fst (Scorer_score S clock st job))
         = vector_weight (profile S) * (1 / 2)
           + keyword_weight (profile S) * fst (KeywordScorer_score (keyword_scorer S) job)
           + recency_weight (profile S)
               * RecencyScorer_score (max_age_days S) (clock (clock_reads st)) job
     \<and> scored_job (fst (Scorer_score S clock st job)) = job
     \<and> length (fst (score_each S clock st jobs)) = length jobs"
proof -
  have n: "\<not> (fst (KeywordScorer_score (keyword_scorer S) job) = 0
      \<and> snd (KeywordScorer_score (keyword_scorer S) job) \<noteq> [])"
    using assms(1) keyword_score_sentinel [of "keyword_scorer S" job] by simp
  note f = score_scored_fields [OF n, of clock st]
  have v: "fst (vector_step S st job) = 1 / 2"
    using assms(2)
  proof (elim disjE conjE exE)
    assume "is_NoEmbeddingProvider (embedding_provider S)"
    then show ?thesis by (simp add: vector_step_neutral_provider)
  next
    fix e
    assume "profile_embedding st = None" "profile_text S \<noteq> []"
      "provider_embed (embedding_provider S) (embed_calls st) [profile_text S] = Inl e"
    then have "fst (Scorer_get_profile_embedding S st) = Inl e"
      by (simp add: get_profile_raises)
    then show ?thesis by (rule vector_step_profile_error)
  next
    fix e
    assume "provider_embed (embedding_provider S)
                (embed_calls (snd (Scorer_get_profile_embedding S st)))
                [get_searchable_text job] = Inl e"
    then show ?thesis by (rule vector_step_job_error)
  next
    assume "profile_embedding st = None" "profile_text S = []"
    then have "fst (Scorer_get_profile_embedding S st) = Inr []"
      by (simp add: get_profile_empty_text)
    then show ?thesis by (rule vector_step_profile_empty)
  next
    assume "profile_embedding st = None" "profile_text S \<noteq> []"
      "provider_embed (embedding_provider S) (embed_calls st) [profile_text S] = Inr []"
    then have "fst (Scorer_get_profile_embedding S st) = Inr []"
      by (simp add: get_profile_returns)
    then show ?thesis by (rule vector_step_profile_empty)
  next
    fix others
    assume "profile_embedding st = None" "profile_text S \<noteq> []"
      "provider_embed (embedding_provider S) (embed_calls st) [profile_text S] = Inr ([] # others)"
    then have "fst (Scorer_get_profile_embedding S st) = Inr []"
      by (simp add: get_profile_returns)
    then show ?thesis by (rule vector_step_profile_empty)
  next
    assume "profile_embedding st = Some []"
    then have "fst (Scorer_get_profile_embedding S st) = Inr []"
      by (simp add: get_profile_cached)
    then show ?thesis by (rule vector_step_profile_empty)
  qed
  show ?thesis
    by (simp add: f(1,4,5) v score_each_length)
qed

theorem neutral_vector_score_witness:
  "\<not> (\<exists>p\<in>set (must_not (keyword_scorer (Scorer_init sample_profile (Some failing_backend)))).
        search p (get_searchable_text (posting ''Python Intern'' ''1'' None)))
   \<and> profile_embedding initial_state = None
   \<and> profile_text (Scorer_init sample_profile (Some failing_backend)) \<noteq> []
   \<and> provider_embed (embedding_provider (Scorer_init sample_profile (Some failing_backend)))
        (embed_calls initial_state)
        [profile_text (Scorer_init sample_profile (Some failing_backend))] = Inl ProviderError
   \<and> vector_score (fst (Scorer_score (Scorer_init sample_profile (Some failing_backend))
        still_clock initial_state (posting ''Python Intern'' ''1'' None))) = 1 / 2
   \<and> final_score (fst (Scorer_score (Scorer_init sample_profile (Some failing_backend))
        still_clock initial_state (posting ''Python Intern'' ''1'' None))) = 41 / 100
   \<and> length (fst (score_each (Scorer_init sample_profile (Some failing_backend)) still_clock
        initial_state [posting ''Python Intern'' ''1'' None, posting ''Senior Dev'' ''1'' None])) = 2"
proof -
  let ?S = "Scorer_init sample_profile (Some failing_backend)"
  let ?j = "posting ''Python Intern'' ''1'' None"
  have ks: "keyword_scorer ?S = KeywordScorer_init sample_profile"
    by (simp add: Scorer_init_def)
  have nex: "\<not> (\<exists>p\<in>set (must_not (keyword_scorer ?S)). search p (get_searchable_text ?j))"
    using sample_not_excluded
      find_Some_ex [of "\<lambda>p. search p (get_searchable_text ?j)" "must_not (KeywordScorer_init sample_profile)"]
    by (simp add: ks)
  have c: "profile_embedding initial_state = None"
    by (simp add: initial_state_def)
  have t: "profile_text ?S \<noteq> []"
    by (simp add: sample_profile_text)
  have e: "provider_embed (embedding_provider ?S) (embed_calls initial_state) [profile_text ?S]
      = Inl ProviderError"
    by (simp add: Scorer_init_def failing_backend_def)
  note T = neutral_vector_score [of ?S ?j initial_state still_clock
      "[posting ''Python Intern'' ''1'' None, posting ''Senior Dev'' ''1'' None]"]
  have all: "vector_score (fst (Scorer_score ?S still_clock initial_state ?j)) = 1 / 2
     \<and> final_score (fst (Scorer_score ?S still_clock initial_state ?j))
         = vector_weight (profile ?S) * (1 / 2)
           + keyword_weight (profile ?S) * fst (KeywordScorer_score (keyword_scorer ?S) ?j)
           + recency_weight (profile ?S)
               * RecencyScorer_score (max_age_days ?S) (still_clock (clock_reads initial_state)) ?j
     \<and> scored_job (fst (Scorer_score ?S still_clock initial_state ?j)) = ?j
     \<and> length (fst (score_each ?S still_clock initial_state
          [posting ''Python Intern'' ''1'' None, posting ''Senior Dev'' ''1'' None]))
         = length [posting ''Python Intern'' ''1'' None, posting ''Senior Dev'' ''1'' None]"
    using T nex c t e by blast
  have r: "RecencyScorer_score (max_age_days ?S) (still_clock (clock_reads initial_state)) ?j = 1 / 2"
    by (rule recency_none) (simp add: posting_def)
  have w: "vector_weight (profile ?S) = 55 / 100" "keyword_weight (profile ?S) = 30 / 100"
    "recency_weight (profile ?S) = 15 / 100"
    by (simp_all add: Scorer_init_def sample_profile_def)
  have f: "final_score (fst (Scorer_score ?S still_clock initial_state ?j)) = 41 / 100"
    using all by (simp add: r w ks sample_keyword_score)
  from all have v: "vector_score (fst (Scorer_score ?S still_clock initial_state ?j)) = 1 / 2"
    by blast
  from all have l: "length (fst (score_each ?S still_clock initial_state
          [posting ''Python Intern'' ''1'' None, posting ''Senior Dev'' ''1'' None])) = 2"
    by simp
  show ?thesis
    by (intro conjI nex c t e v f l)
qed

text \<open>
  C8, as stated: \<^verbatim>\<open>embed\<close> is called on the profile text at most once in the life of a
  Scorer. The cache is assigned only when \<^verbatim>\<open>embed\<close> returns: with a backend whose
  \<^verbatim>\<open>embed\<close> raises, every \<^verbatim>\<open>score\<close> call calls it on the profile text again.
\<close>

theorem profile_embed_retried_counterexample:
  "embed_calls (snd (Scorer_score (Scorer_init sample_profile (Some failing_backend)) still_clock
      (snd (Scorer_score (Scorer_init sample_profile (Some failing_backend)) still_clock
         initial_state (posting ''Python Intern'' ''1'' None)))
      (posting ''Python Intern'' ''1'' None)))
   = [(ProfileText, [''Software Engineer Intern Backend Intern Python backend''], False),
      (ProfileText, [''Software Engineer Intern Backend Intern Python backend''], False)]"
proof -
  have a: "profile_embedding initial_state = None"
    by (simp add: initial_state_def)
  note s1 = failing_backend_score_state [OF a, of still_clock]
  have b: "profile_embedding (snd (Scorer_score (Scorer_init sample_profile (Some failing_backend))
      still_clock initial_state (posting ''Python Intern'' ''1'' None))) = None"
    by (simp add: s1 a)
  note s2 = failing_backend_score_state [OF b, of still_clock]
  have e0: "embed_calls initial_state = []"
    by (simp add: initial_state_def)
  show ?thesis
    unfolding s2 unfolding s1 by (simp add: e0)
qed

text \<open>
  C8, amended: in every sequence of \<^verbatim>\<open>score\<close> calls of a new Scorer, at most one call of
  \<^verbatim>\<open>embed\<close> on the profile text returns; the value it returns is cached; and once a value
  is cached, \<^verbatim>\<open>_get_profile_embedding\<close> answers that value, every later \<^verbatim>\<open>score\<close> call
  leaves the cache unchanged and none calls \<^verbatim>\<open>embed\<close> on the profile text again. When
  \<^verbatim>\<open>embed\<close> raises on the profile text, the \<^verbatim>\<open>score\<close> call of a posting that is not
  excluded leaves the cache empty and has made exactly that one more call; so with a
  backend whose \<^verbatim>\<open>embed\<close> raises on the profile text every time, a new Scorer calls it
  once for each posting that is not excluded, and the cache stays empty.
\<close>

theorem profile_embedding_cached_once:
  "length (filter successful_profile_call
      (embed_calls (snd (score_each S clock initial_state jobs)))) \<le> 1
   \<and> (profile_embedding st = Some v
      \<longrightarrow> fst (Scorer_get_profile_embedding S st) = Inr v
        \<and> profile_embedding (snd (score_each S clock st jobs)) = Some v
        \<and> filter (\<lambda>c. fst c = ProfileText) (embed_calls (snd (score_each S clock st jobs)))
            = filter (\<lambda>c. fst c = ProfileText) (embed_calls st))
   \<and> (Scorer_get_profile_embedding S st = (Inr v, st1) \<longrightarrow> profile_embedding st1 = Some v)
   \<and> (\<not> (\<exists>p\<in>set (must_not (keyword_scorer S)). search p (get_searchable_text job))
      \<and> \<not> is_NoEmbeddingProvider (embedding_provider S)
      \<and> profile_embedding st = None \<and> profile_text S \<noteq> []
      \<and> provider_embed (embedding_provider S) (embed_calls st) [profile_text S] = Inl e
      \<longrightarrow> profile_embedding (snd (Scorer_score S clock st job)) = None
        \<and> embed_calls (snd (Scorer_score S clock st job))
            = embed_calls st @ [(ProfileText, [profile_text S], False)])
   \<and> (\<not> is_NoEmbeddingProvider (embedding_provider S) \<and> profile_text S \<noteq> []
      \<and> (\<forall>history. \<exists>e. provider_embed (embedding_provider S) history [profile_text S] = Inl e)
      \<and> (\<forall>j\<in>set jobs.
            \<not> (\<exists>p\<in>set (must_not (keyword_scorer S)). search p (get_searchable_text j)))
      \<longrightarrow> profile_embedding (snd (score_each S clock initial_state jobs)) = None
        \<and> embed_calls (snd (score_each S clock initial_state jobs))
            = replicate (length jobs) (ProfileText, [profile_text S], False))"
proof -
  have "cache_invariant initial_state"
    by (simp add: cache_invariant_def initial_state_def)
  then have "cache_invariant (snd (score_each S clock initial_state jobs))"
    by (rule score_each_invariant)
  then have a: "length (filter successful_profile_call
      (embed_calls (snd (score_each S clock initial_state jobs)))) \<le> 1"
    by (simp add: cache_invariant_def split: if_splits)
  have b: "profile_embedding st = Some v
      \<longrightarrow> fst (Scorer_get_profile_embedding S st) = Inr v
        \<and> profile_embedding (snd (score_each S clock st jobs)) = Some v
        \<and> filter (\<lambda>c. fst c = ProfileText) (embed_calls (snd (score_each S clock st jobs)))
            = filter (\<lambda>c. fst c = ProfileText) (embed_calls st)"
    using score_each_keeps_cache [of st v S clock jobs] get_profile_cached [of st v S]
    by simp
  have c: "Scorer_get_profile_embedding S st = (Inr v, st1) \<longrightarrow> profile_embedding st1 = Some v"
    using get_profile_result_cached [of S st v st1] by simp
  have d: "\<not> (\<exists>p\<in>set (must_not (keyword_scorer S)). search p (get_searchable_text job))
      \<and> \<not> is_NoEmbeddingProvider (embedding_provider S)
      \<and> profile_embedding st = None \<and> profile_text S \<noteq> []
      \<and> provider_embed (embedding_provider S) (embed_calls st) [profile_text S] = Inl e
      \<longrightarrow> profile_embedding (snd (Scorer_score S clock st job)) = None
        \<and> embed_calls (snd (Scorer_score S clock st job))
            = embed_calls st @ [(ProfileText, [profile_text S], False)]"
    using score_profile_embed_raises [of S job st e clock] by blast
  have i: "profile_embedding initial_state = None" "embed_calls initial_state = []"
    by (simp_all add: initial_state_def)
  have f: "\<not> is_NoEmbeddingProvider (embedding_provider S) \<and> profile_text S \<noteq> []
      \<and> (\<forall>history. \<exists>e. provider_embed (embedding_provider S) history [profile_text S] = Inl e)
      \<and> (\<forall>j\<in>set jobs.
            \<not> (\<exists>p\<in>set (must_not (keyword_scorer S)). search p (get_searchable_text j)))
      \<longrightarrow> profile_embedding (snd (score_each S clock initial_state jobs)) = None
        \<and> embed_calls (snd (score_each S clock initial_state jobs))
            = replicate (length jobs) (ProfileText, [profile_text S], False)"
    using score_each_profile_embed_raises [of S jobs initial_state clock] i by simp
  show ?thesis
    by (intro conjI a b c d f)
qed

theorem profile_embedding_cached_once_witness:
  "profile_embedding \<lparr>profile_embedding = Some [1, 0], embed_calls = [], clock_reads = 0\<rparr>
     = Some [1, 0]
   \<and> length (filter successful_profile_call
        (embed_calls (snd (score_each (Scorer_init sample_profile (Some constant_backend))
           still_clock initial_state
           [posting ''Python Intern'' ''1'' None, posting ''Python Intern'' ''2'' None])))) \<le> 1
   \<and> fst (Scorer_get_profile_embedding (Scorer_init sample_profile (Some constant_backend))
        \<lparr>profile_embedding = Some [1, 0], embed_calls = [], clock_reads = 0\<rparr>) = Inr [1, 0]
   \<and> profile_embedding (snd (score_each (Scorer_init sample_profile (Some constant_backend))
        still_clock \<lparr>profile_embedding = Some [1, 0], embed_calls = [], clock_reads = 0\<rparr>
        [posting ''Python Intern'' ''1'' None, posting ''Python Intern'' ''2'' None]))
     = Some [1, 0]
   \<and> filter (\<lambda>c. fst c = ProfileText)
        (embed_calls (snd (score_each (Scorer_init sample_profile (Some constant_backend))
           still_clock \<lparr>profile_embedding = Some [1, 0], embed_calls = [], clock_reads = 0\<rparr>
           [posting ''Python Intern'' ''1'' None, posting ''Python Intern'' ''2'' None])))
     = []
   \<and> \<not> is_NoEmbeddingProvider (embedding_provider (Scorer_init sample_profile (Some failing_backend)))
   \<and> profile_text (Scorer_init sample_profile (Some failing_backend)) \<noteq> []
   \<and> provider_embed (embedding_provider (Scorer_init sample_profile (Some failing_backend)))
        (embed_calls initial_state)
        [profile_text (Scorer_init sample_profile (Some failing_backend))] = Inl ProviderError
   \<and> profile_embedding (snd (Scorer_score (Scorer_init sample_profile (Some failing_backend))
        still_clock initial_state (posting ''Python Intern'' ''1'' None))) = None
   \<and> embed_calls (snd (Scorer_score (Scorer_init sample_profile (Some failing_backend))
        still_clock initial_state (posting ''Python Intern'' ''1'' None)))
     = [(ProfileText, [''Software Engineer Intern Backend Intern Python backend''], False)]
   \<and> profile_embedding (snd (score_each (Scorer_init sample_profile (Some failing_backend))
        still_clock initial_state
        [posting ''Python Intern'' ''1'' None, posting ''Python Intern'' ''2'' None])) = None
   \<and> embed_calls (snd (score_each (Scorer_init sample_profile (Some failing_backend))
        still_clock initial_state
        [posting ''Python Intern'' ''1'' None, posting ''Python Intern'' ''2'' None]))
     = [(ProfileText, [''Software Engineer Intern Backend Intern Python backend''], False),
        (ProfileText, [''Software Engineer Intern Backend Intern Python backend''], False)]"
proof -
  let ?st = "\<lparr>profile_embedding = Some [1, 0], embed_calls = [], clock_reads = 0\<rparr>"
  let ?S = "Scorer_init sample_profile (Some constant_backend)"
  let ?F = "Scorer_init sample_profile (Some failing_backend)"
  let ?j = "posting ''Python Intern'' ''1'' None"
  let ?jobs = "[posting ''Python Intern'' ''1'' None, posting ''Python Intern'' ''2'' None]"
  have h: "profile_embedding ?st = Some [1, 0]" by simp
  note T = profile_embedding_cached_once [of ?S still_clock ?jobs ?st "[1, 0]" ?st]
  have c1: "length (filter successful_profile_call
        (embed_calls (snd (score_each ?S still_clock initial_state ?jobs)))) \<le> 1"
    using T by blast
  have c2: "fst (Scorer_get_profile_embedding ?S ?st) = Inr [1, 0]"
    using T h by blast
  have c3: "profile_embedding (snd (score_each ?S still_clock ?st ?jobs)) = Some [1, 0]"
    using T h by blast
  have "filter (\<lambda>c. fst c = ProfileText) (embed_calls (snd (score_each ?S still_clock ?st ?jobs)))
      = filter (\<lambda>c. fst c = ProfileText) (embed_calls ?st)"
    using T h by blast
  then have c4: "filter (\<lambda>c. fst c = ProfileText)
      (embed_calls (snd (score_each ?S still_clock ?st ?jobs))) = []"
    by simp
  have p: "embedding_provider ?F = failing_backend"
    by (simp add: Scorer_init_def)
  have nn: "\<not> is_NoEmbeddingProvider (embedding_provider ?F)"
    unfolding p by (simp add: failing_backend_def)
  have t: "profile_text ?F \<noteq> []"
    by (simp add: sample_profile_text)
  have e: "provider_embed (embedding_provider ?F) history [profile_text ?F] = Inl ProviderError"
    for history
    unfolding p by (simp add: failing_backend_def)
  have i: "profile_embedding initial_state = None" "embed_calls initial_state = []"
    by (simp_all add: initial_state_def)
  have nex: "\<forall>j\<in>set ?jobs.
      \<not> (\<exists>p\<in>set (must_not (keyword_scorer ?F)). search p (get_searchable_text j))"
    using python_intern_not_excluded by simp
  note U = profile_embedding_cached_once
    [of ?F still_clock ?jobs initial_state "[]" initial_state ?j ProviderError]
  have one: "profile_embedding (snd (Scorer_score ?F still_clock initial_state ?j)) = None
      \<and> embed_calls (snd (Scorer_score ?F still_clock initial_state ?j))
          = embed_calls initial_state @ [(ProfileText, [profile_text ?F], False)]"
    using U python_intern_not_excluded [of "Some failing_backend" "''1''"] nn i(1) t
      e [of "embed_calls initial_state"]
    by blast
  have c5: "profile_embedding (snd (Scorer_score ?F still_clock initial_state ?j)) = None"
    using one by blast
  have c6: "embed_calls (snd (Scorer_score ?F still_clock initial_state ?j))
      = [(ProfileText, [''Software Engineer Intern Backend Intern Python backend''], False)]"
    using one by (simp add: i(2) sample_profile_text)
  have all: "profile_embedding (snd (score_each ?F still_clock initial_state ?jobs)) = None
      \<and> embed_calls (snd (score_each ?F still_clock initial_state ?jobs))
          = replicate (length ?jobs) (ProfileText, [profile_text ?F], False)"
    using U nn t e nex by blast
  have c7: "profile_embedding (snd (score_each ?F still_clock initial_state ?jobs)) = None"
    using all by blast
  have c8: "embed_calls (snd (score_each ?F still_clock initial_state ?jobs))
      = [(ProfileText, [''Software Engineer Intern Backend Intern Python backend''], False),
         (ProfileText, [''Software Engineer Intern Backend Intern Python backend''], False)]"
    using all by (simp add: sample_profile_text)
  show ?thesis
    by (intro conjI h c1 c2 c3 c4 nn t e c5 c6 c7 c8)
qed

end
